theory Spec2Isabelle
  imports Complex_Main "HOL-Library.AList"
begin

section \<open>Python values used by bot.py\<close>

text \<open>
  The script computes with Python's unbounded integers (\<^typ>\<open>int\<close>), with strings and
  with floats.  A Python float is an IEEE 754 binary64 number; it is modelled exactly, as
  sign, integer mantissa \<open>m \<ge> 0\<close> and exponent of the mantissa's last bit:
  \<open>Finite s m e\<close> is the number \<open>(-1)^s * m * 2^e\<close>.  The operations the script
  applies to floats (true division of two integers, multiplication, \<open>int(...)\<close>,
  \<open>format(..., ".4f")\<close>) are correctly rounded in CPython, so each of them is a
  function of the exact rational result.
\<close>

datatype pyfloat = Finite bool int int | Inf bool | NaN

datatype error = OverflowError | ValueError | ZeroDivisionError | TypeError

function bit_length :: "int \<Rightarrow> int" where
  \<comment> \<open>\<open>n.bit_length()\<close> of a non-negative int\<close>
  "bit_length n = (if n \<le> 0 then 0 else 1 + bit_length (n div 2))"
  by pat_completeness auto
termination
  by (relation "measure nat") auto

declare bit_length.simps [simp del]

definition round_half_even :: "int \<Rightarrow> int \<Rightarrow> int" where
  \<comment> \<open>the integer nearest to \<open>n / d\<close>, a tie going to the even neighbour\<close>
  "round_half_even n d =
     (let q = n div d; r = n mod d
      in if 2 * r < d then q
         else if d < 2 * r then q + 1
         else if even q then q else q + 1)"

definition scaled :: "int \<Rightarrow> int \<Rightarrow> int \<Rightarrow> int \<times> int" where
  \<comment> \<open>numerator and denominator of \<open>n / (d * 2^e)\<close>\<close>
  "scaled n d e = (if 0 \<le> e then (n, d * 2 ^ nat e) else (n * 2 ^ nat (- e), d))"

definition lsb_exponent :: "int \<Rightarrow> int \<Rightarrow> int" where
  \<comment> \<open>the exponent of the last mantissa bit of the double nearest to \<open>n / d\<close>: 53 bits
      of precision, and never below the subnormal exponent -1074\<close>
  "lsb_exponent n d =
     (let k = bit_length n - bit_length d;
          l = (case scaled n d k of (a, b) \<Rightarrow> if b \<le> a then k else k - 1)
      in max (l - 52) (- 1074))"

definition round_to_double :: "int \<Rightarrow> int \<Rightarrow> (int \<times> int) option" where
  \<comment> \<open>mantissa and exponent of the double nearest to \<open>n / d\<close> for \<open>0 \<le> n\<close> and
      \<open>0 < d\<close> (round half to even); \<open>None\<close> when the rounded value exceeds the largest
      finite double\<close>
  "round_to_double n d =
     (if n = 0 then Some (0, - 1074)
      else
        let e = lsb_exponent n d;
            m = (case scaled n d e of (a, b) \<Rightarrow> round_half_even a b);
            m' = (if m = 2 ^ 53 then 2 ^ 52 else m);
            e' = (if m = 2 ^ 53 then e + 1 else e)
        in if 971 < e' then None else Some (m', e'))"

definition int_truediv :: "int \<Rightarrow> int \<Rightarrow> error + pyfloat" where
  \<comment> \<open>\<open>a / b\<close> on two Python ints\<close>
  "int_truediv a b =
     (if b = 0 then Inl ZeroDivisionError
      else case round_to_double \<bar>a\<bar> \<bar>b\<bar> of
             None \<Rightarrow> Inl OverflowError
           | Some (m, e) \<Rightarrow> Inr (Finite ((a < 0) \<noteq> (b < 0)) m e))"

definition float_of_int :: "int \<Rightarrow> error + pyfloat" where
  \<comment> \<open>the conversion of an int operand in mixed float/int arithmetic\<close>
  "float_of_int a =
     (case round_to_double \<bar>a\<bar> 1 of
        None \<Rightarrow> Inl OverflowError
      | Some (m, e) \<Rightarrow> Inr (Finite (a < 0) m e))"

fun float_mul :: "pyfloat \<Rightarrow> pyfloat \<Rightarrow> pyfloat" where
  "float_mul NaN y = NaN"
| "float_mul x NaN = NaN"
| "float_mul (Inf s) (Inf t) = Inf (s \<noteq> t)"
| "float_mul (Inf s) (Finite t m e) = (if m = 0 then NaN else Inf (s \<noteq> t))"
| "float_mul (Finite s m e) (Inf t) = (if m = 0 then NaN else Inf (s \<noteq> t))"
| "float_mul (Finite s m e) (Finite t m' e') =
     (case scaled (m * m') 1 (- (e + e')) of
        (a, b) \<Rightarrow>
          (case round_to_double a b of
             None \<Rightarrow> Inf (s \<noteq> t)
           | Some (p, q) \<Rightarrow> Finite (s \<noteq> t) p q))"

fun int_of_float :: "pyfloat \<Rightarrow> error + int" where
  \<comment> \<open>\<open>int(x)\<close>: truncation towards zero\<close>
  "int_of_float NaN = Inl ValueError"
| "int_of_float (Inf s) = Inl OverflowError"
| "int_of_float (Finite s m e) =
     (let a = (if 0 \<le> e then m * 2 ^ nat e else m div 2 ^ nat (- e))
      in Inr (if s then - a else a))"

subsection \<open>Rendering numbers\<close>

definition digit_char :: "int \<Rightarrow> char" where
  "digit_char n = ''0123456789abcdef'' ! nat (n mod 16)"

function str_nat :: "int \<Rightarrow> string" where
  \<comment> \<open>\<open>str(n)\<close> of a non-negative int\<close>
  "str_nat n = (if n < 10 then [digit_char n] else str_nat (n div 10) @ [digit_char (n mod 10)])"
  by pat_completeness auto
termination
  by (relation "measure nat") auto

declare str_nat.simps [simp del]

function hex_nat :: "int \<Rightarrow> string" where
  \<comment> \<open>\<open>format(n, "x")\<close> of a non-negative int\<close>
  "hex_nat n = (if n < 16 then [digit_char n] else hex_nat (n div 16) @ [digit_char (n mod 16)])"
  by pat_completeness auto
termination
  by (relation "measure nat") auto

declare hex_nat.simps [simp del]

definition rjust :: "string \<Rightarrow> nat \<Rightarrow> char \<Rightarrow> string" where
  "rjust s width fill = replicate (width - length s) fill @ s"

definition ten_thousandths :: "int \<Rightarrow> int \<Rightarrow> int" where
  \<comment> \<open>the integer nearest to \<open>m * 2^e * 10^4\<close>, ties to even: the digits that
      \<open>.4f\<close> prints for the float \<open>m * 2^e\<close>\<close>
  "ten_thousandths m e = (case scaled (m * 10000) 1 (- e) of (a, b) \<Rightarrow> round_half_even a b)"



definition float_val :: "pyfloat \<Rightarrow> real" where
  \<comment> \<open>the number a finite float denotes (0, by convention, for infinities and NaN)\<close>
  "float_val x =
     (case x of
        Finite s m e \<Rightarrow> (if s then - 1 else 1) * real_of_int m * 2 powi e
      | Inf s \<Rightarrow> 0
      | NaN \<Rightarrow> 0)"


section \<open>The simulated chain client\<close>

text \<open>
  The script draws from Python's \<open>random\<close> module and reads the wall clock.  Both are
  inputs of the model: \<open>rng\<close> gives the raw value of the k-th draw, \<open>clock\<close> the
  value of the k-th \<open>int(time.time())\<close>; \<open>draws\<close> and \<open>ticks\<close> count how many have been
  consumed.  \<open>ADDRESS\<close> is the module-level account address, fixed when the script is
  loaded.  \<open>log\<close> is a trace: every call the script makes on the web3 object, on a
  contract function or on the account is appended to it, in program order, with its
  arguments and, for a read or a submission, the value returned.  Nothing reads the trace;
  it exists to state which calls happen, in which order and with which values.
\<close>

datatype pyval = PyNone | PyInt int | PyStr string | PyList "string list"

type_synonym pydict = "(string \<times> pyval) list"

datatype event =
    Invoke string string "pyval list"
      \<comment> \<open>\<open>contract.functions.NAME(args)\<close>: contract address, name, arguments\<close>
  | Call string pyval
      \<comment> \<open>\<open>DummyFunction.call()\<close>, a contract read: name and the value returned\<close>
  | BuildTransaction string pydict
      \<comment> \<open>\<open>DummyFunction.build_transaction(txdict)\<close>: name and the transaction built\<close>
  | GetBlock string int
      \<comment> \<open>argument and the timestamp of the block returned\<close>
  | GetTransactionCount string int
      \<comment> \<open>address and the count returned\<close>
  | SignTransaction pydict
  | SendRawTransaction string string
      \<comment> \<open>the raw transaction and the hash returned (its hex digits)\<close>

record world =
  rng :: "nat \<Rightarrow> int"
  draws :: nat
  clock :: "nat \<Rightarrow> int"
  ticks :: nat
  ADDRESS :: string
  log :: "event list"

definition emit :: "event \<Rightarrow> world \<Rightarrow> world" where
  "emit ev w = w\<lparr>log := log w @ [ev]\<rparr>"

definition randint :: "int \<Rightarrow> int \<Rightarrow> world \<Rightarrow> int \<times> world" where
  \<comment> \<open>\<open>random.randint(a, b)\<close>: some value of \<open>a..b\<close>, decided by the next draw\<close>
  "randint a b w = (a + rng w (draws w) mod (b - a + 1), w\<lparr>draws := Suc (draws w)\<rparr>)"

definition getrandbits :: "nat \<Rightarrow> world \<Rightarrow> int \<times> world" where
  "getrandbits k w = (rng w (draws w) mod 2 ^ k, w\<lparr>draws := Suc (draws w)\<rparr>)"

definition fast_hex :: "nat \<Rightarrow> world \<Rightarrow> string \<times> world" where
  "fast_hex n_bytes w =
     (case getrandbits (n_bytes * 8) w of
        (r, w') \<Rightarrow> (''0x'' @ rjust (hex_nat r) (n_bytes * 2) CHR ''0'', w'))"

definition now_ts :: "world \<Rightarrow> int \<times> world" where
  "now_ts w = (clock w (ticks w), w\<lparr>ticks := Suc (ticks w)\<rparr>)"

text \<open>
  \<open>_to_wei\<close> receives an arbitrary Python object and applies \<open>float(...)\<close> or
  \<open>int(...)\<close> to it.  The object is modelled by what these two conversions return or
  raise: for a float and for an int they are computed, for any other object (the script
  passes the str "5") they are given with the object.
\<close>

record pyobj =
  as_float :: "error + pyfloat"
  as_int :: "error + int"

definition py_float :: "pyfloat \<Rightarrow> pyobj" where
  \<comment> \<open>a float object: \<open>float(x)\<close> is \<open>x\<close>, \<open>int(x)\<close> truncates\<close>
  "py_float x = \<lparr>as_float = Inr x, as_int = int_of_float x\<rparr>"

definition py_int :: "int \<Rightarrow> pyobj" where
  \<comment> \<open>an int object: \<open>float(i)\<close> rounds to the nearest double, \<open>int(i)\<close> is \<open>i\<close>\<close>
  "py_int i = \<lparr>as_float = float_of_int i, as_int = Inr i\<rparr>"

definition five :: pyfloat where
  \<comment> \<open>the float \<open>5.0\<close>\<close>
  "five = Finite False 5629499534213120 (- 50)"

definition str_5 :: pyobj where
  \<comment> \<open>the str \<open>"5"\<close>: \<open>float("5")\<close> is \<open>5.0\<close> and \<open>int("5")\<close> is \<open>5\<close>\<close>
  "str_5 = \<lparr>as_float = Inr five, as_int = Inr 5\<rparr>"

definition to_wei :: "pyobj \<Rightarrow> string \<Rightarrow> error + int" where
  \<comment> \<open>\<open>_to_wei(val, unit)\<close>\<close>
  "to_wei val unit =
     (if unit = ''ether'' then
        (case as_float val of
           Inl err \<Rightarrow> Inl err
         | Inr x \<Rightarrow>
             (case float_of_int (10 ^ 18) of
                Inl err \<Rightarrow> Inl err
              | Inr f \<Rightarrow> int_of_float (float_mul x f)))
      else if unit = ''gwei'' then
        (case as_float val of
           Inl err \<Rightarrow> Inl err
         | Inr x \<Rightarrow>
             (case float_of_int (10 ^ 9) of
                Inl err \<Rightarrow> Inl err
              | Inr f \<Rightarrow> int_of_float (float_mul x f)))
      else as_int val)"

subsection \<open>DummyEth, DummyWeb3, DummyAccount\<close>

record block =
  timestamp :: int

definition get_block :: "string \<Rightarrow> world \<Rightarrow> block \<times> world" where
  "get_block arg w =
     (case now_ts w of (t, w') \<Rightarrow> (\<lparr>timestamp = t\<rparr>, emit (GetBlock arg t) w'))"

definition get_transaction_count :: "string \<Rightarrow> world \<Rightarrow> int \<times> world" where
  "get_transaction_count address w =
     (case randint 0 20 w of (n, w') \<Rightarrow> (n, emit (GetTransactionCount address n) w'))"

definition send_raw_transaction :: "string \<Rightarrow> world \<Rightarrow> string \<times> world" where
  \<comment> \<open>returns the transaction hash as its 16 hex digits: \<open>bytes.fromhex(hx)\<close> of the
      script is the byte string these digits spell\<close>
  "send_raw_transaction raw w =
     (case fast_hex 8 w of
        (hx, w') \<Rightarrow> (drop 2 hx, emit (SendRawTransaction raw (drop 2 hx)) w'))"

definition to_hex :: "string \<Rightarrow> string" where
  \<comment> \<open>\<open>"0x" + b.hex()\<close> of a byte string given by its hex digits\<close>
  "to_hex b = ''0x'' @ b"

definition to_checksum_address :: "string \<Rightarrow> string" where
  "to_checksum_address a = a"

definition sign_transaction :: "pydict \<Rightarrow> world \<Rightarrow> string \<times> world" where
  \<comment> \<open>the \<open>rawTransaction\<close> of the \<open>Signed\<close> object\<close>
  "sign_transaction tx w = (''dummy_tx'', emit (SignTransaction tx) w)"

subsection \<open>DummyFunction and DummyContract\<close>

record dummy_function =
  name :: string
  return_val :: "pyval option"
  build_template :: "pydict option"

definition dict_get :: "pydict \<Rightarrow> string \<Rightarrow> pyval \<Rightarrow> pyval" where
  \<comment> \<open>\<open>d.get(k, default)\<close>\<close>
  "dict_get d k dflt = (case map_of d k of None \<Rightarrow> dflt | Some v \<Rightarrow> v)"

definition dict_update :: "pydict \<Rightarrow> pydict \<Rightarrow> pydict" where
  \<comment> \<open>\<open>d.update(other)\<close>\<close>
  "dict_update d other = fold (\<lambda>(k, v). AList.update k v) other d"

definition call :: "dummy_function \<Rightarrow> world \<Rightarrow> pyval \<times> world" where
  "call f w =
     (case (if name f = ''balanceOf'' then
              (case randint 1 (10 ^ 18) w of (r, w') \<Rightarrow> (PyInt r, w'))
            else if name f = ''decimals'' then (PyInt 18, w)
            else if name f = ''symbol'' then (PyStr ''TOK'', w)
            else (case return_val f of
                    None \<Rightarrow> (PyInt 0, w)
                  | Some v \<Rightarrow>
                      (if v = PyNone \<or> v = PyInt 0 \<or> v = PyStr [] \<or> v = PyList []
                       then (PyInt 0, w) else (v, w)))) of
        (v, w') \<Rightarrow> (v, emit (Call (name f) v) w'))"

definition build_transaction :: "dummy_function \<Rightarrow> pydict \<Rightarrow> world \<Rightarrow> pydict \<times> world" where
  "build_transaction f txdict w =
     (let tx = [(''from'', dict_get txdict ''from'' PyNone),
                (''to'', dict_get txdict ''to'' (PyStr ''0xDummy'')),
                (''value'', dict_get txdict ''value'' (PyInt 0)),
                (''gas'', dict_get txdict ''gas'' PyNone),
                (''gasPrice'', dict_get txdict ''gasPrice'' PyNone),
                (''nonce'', dict_get txdict ''nonce'' PyNone),
                (''data'', PyStr ''<dummy_data>'')];
          tx' = (case build_template f of None \<Rightarrow> tx | Some t \<Rightarrow> dict_update tx t)
      in (tx', emit (BuildTransaction (name f) tx') w))"

record dummy_contract =
  address :: string

definition contract :: "string \<Rightarrow> dummy_contract" where
  \<comment> \<open>\<open>web3.eth.contract(address=a, abi=...)\<close>; the abi is stored and never read\<close>
  "contract a = \<lparr>address = (if a = [] then ''0xDummyContract'' else a)\<rparr>"

definition balanceOf :: "dummy_contract \<Rightarrow> string \<Rightarrow> world \<Rightarrow> dummy_function \<times> world" where
  "balanceOf c addr w =
     (\<lparr>name = ''balanceOf'', return_val = None, build_template = None\<rparr>,
      emit (Invoke (address c) ''balanceOf'' [PyStr addr]) w)"

definition decimals :: "dummy_contract \<Rightarrow> world \<Rightarrow> dummy_function \<times> world" where
  "decimals c w =
     (\<lparr>name = ''decimals'', return_val = None, build_template = None\<rparr>,
      emit (Invoke (address c) ''decimals'' []) w)"

definition symbol :: "dummy_contract \<Rightarrow> world \<Rightarrow> dummy_function \<times> world" where
  "symbol c w =
     (\<lparr>name = ''symbol'', return_val = None, build_template = None\<rparr>,
      emit (Invoke (address c) ''symbol'' []) w)"

definition approve :: "dummy_contract \<Rightarrow> string \<Rightarrow> int \<Rightarrow> world \<Rightarrow> dummy_function \<times> world" where
  "approve c spender v w =
     (\<lparr>name = ''approve'', return_val = None,
       build_template = Some [(''approved_to'', PyStr spender), (''approved_value'', PyInt v)]\<rparr>,
      emit (Invoke (address c) ''approve'' [PyStr spender, PyInt v]) w)"

definition swapExactETHForTokens ::
  "dummy_contract \<Rightarrow> pyval list \<Rightarrow> world \<Rightarrow> dummy_function \<times> world" where
  "swapExactETHForTokens c args w =
     (\<lparr>name = ''swapExactETHForTokens'', return_val = None,
       build_template = Some [(''swap'', PyStr ''eth->tokens'')]\<rparr>,
      emit (Invoke (address c) ''swapExactETHForTokens'' args) w)"

definition swapExactTokensForETH ::
  "dummy_contract \<Rightarrow> pyval list \<Rightarrow> world \<Rightarrow> dummy_function \<times> world" where
  "swapExactTokensForETH c args w =
     (\<lparr>name = ''swapExactTokensForETH'', return_val = None,
       build_template = Some [(''swap'', PyStr ''tokens->eth'')]\<rparr>,
      emit (Invoke (address c) ''swapExactTokensForETH'' args) w)"

subsection \<open>Configuration\<close>

definition ROUTER_ADDRESS :: string where
  "ROUTER_ADDRESS = ''0x7a250d5630B4cF539739dF2C5dAcb4c659F2488D''"

definition WETH_ADDRESS :: string where
  "WETH_ADDRESS = ''0xC02aaA39b223FE8D0A0e5C4F27eAD9083C756Cc2''"

definition router :: dummy_contract where
  "router = contract (to_checksum_address ROUTER_ADDRESS)"


section \<open>Core functions\<close>


definition swap_buy :: "string \<Rightarrow> pyobj \<Rightarrow> world \<Rightarrow> (error + string) \<times> world" where
  "swap_buy token_address0 eth_amount w =
     (let token_address = to_checksum_address token_address0;
          path = [to_checksum_address WETH_ADDRESS, token_address]
      in case get_block ''latest'' w of (blk, w1) \<Rightarrow>
         let now = timestamp blk;
             deadline = now + 1200
         in case swapExactETHForTokens router
                   [PyInt 0, PyList path, PyStr (ADDRESS w1), PyInt deadline] w1 of (f, w2) \<Rightarrow>
            (case to_wei eth_amount ''ether'' of
               Inl err \<Rightarrow> (Inl err, w2)
             | Inr v \<Rightarrow>
                 (case to_wei str_5 ''gwei'' of
                    Inl err \<Rightarrow> (Inl err, w2)
                  | Inr gas_price \<Rightarrow>
                      (case get_transaction_count (ADDRESS w2) w2 of (nonce, w3) \<Rightarrow>
                       case build_transaction f
                              [(''from'', PyStr (ADDRESS w3)),
                               (''value'', PyInt v),
                               (''gas'', PyInt 250000),
                               (''gasPrice'', PyInt gas_price),
                               (''nonce'', PyInt nonce)] w3 of (tx, w4) \<Rightarrow>
                       case sign_transaction tx w4 of (raw, w5) \<Rightarrow>
                       case send_raw_transaction raw w5 of (tx_hash, w6) \<Rightarrow>
                         (Inr (''Buy Tx Sent: '' @ to_hex tx_hash), w6)))))"

definition sell_amount :: "int \<Rightarrow> int \<Rightarrow> error + int" where
  \<comment> \<open>\<open>int(balance * percentage / 100)\<close>\<close>
  "sell_amount balance percentage =
     (case int_truediv (balance * percentage) 100 of
        Inl err \<Rightarrow> Inl err
      | Inr x \<Rightarrow> int_of_float x)"

definition swap_sell :: "string \<Rightarrow> int \<Rightarrow> world \<Rightarrow> (error + string) \<times> world" where
  "swap_sell token_address0 percentage w =
     (let token_address = to_checksum_address token_address0;
          token = contract token_address
      in case balanceOf token (ADDRESS w) w of (f1, w1) \<Rightarrow>
         case call f1 w1 of (balance_v, w2) \<Rightarrow>
         case decimals token w2 of (f2, w3) \<Rightarrow>
         case call f2 w3 of (decimals_v, w4) \<Rightarrow>
           (case balance_v of
              PyInt balance \<Rightarrow>
                (case sell_amount balance percentage of
                   Inl err \<Rightarrow> (Inl err, w4)
                 | Inr amount \<Rightarrow>
                     (case approve token (to_checksum_address ROUTER_ADDRESS) amount w4 of
                        (fa, w5) \<Rightarrow>
                     (case to_wei str_5 ''gwei'' of
                        Inl err \<Rightarrow> (Inl err, w5)
                      | Inr gas_price \<Rightarrow>
                     (case get_transaction_count (ADDRESS w5) w5 of (nonce, w6) \<Rightarrow>
                      case build_transaction fa
                             [(''from'', PyStr (ADDRESS w6)),
                              (''gas'', PyInt 80000),
                              (''gasPrice'', PyInt gas_price),
                              (''nonce'', PyInt nonce)] w6 of (approve_tx, w7) \<Rightarrow>
                      case sign_transaction approve_tx w7 of (signed_approve, w8) \<Rightarrow>
                      case send_raw_transaction signed_approve w8 of (approve_hash, w9) \<Rightarrow>
                      let path = [token_address, to_checksum_address WETH_ADDRESS]
                      in case get_block ''latest'' w9 of (blk, w10) \<Rightarrow>
                         let now = timestamp blk;
                             deadline = now + 1200
                         in case swapExactTokensForETH router
                                   [PyInt amount, PyInt 0, PyList path, PyStr (ADDRESS w10),
                                    PyInt deadline] w10 of (fs, w11) \<Rightarrow>
                            (case to_wei str_5 ''gwei'' of
                               Inl err \<Rightarrow> (Inl err, w11)
                             | Inr gas_price2 \<Rightarrow>
                            (case get_transaction_count (ADDRESS w11) w11 of (nonce2, w12) \<Rightarrow>
                             case build_transaction fs
                                    [(''from'', PyStr (ADDRESS w12)),
                                     (''gas'', PyInt 250000),
                                     (''gasPrice'', PyInt gas_price2),
                                     (''nonce'', PyInt nonce2)] w12 of (sell_tx, w13) \<Rightarrow>
                             case sign_transaction sell_tx w13 of (signed_sell, w14) \<Rightarrow>
                             case send_raw_transaction signed_sell w14 of (tx_hash, w15) \<Rightarrow>
                               (Inr (''Sell Tx Sent: '' @ to_hex tx_hash), w15)))))))
            | _ \<Rightarrow> (Inl TypeError, w4)))"


section \<open>Observing a run\<close>

text \<open>
  The events an operation appends to the trace, and projections of a trace.  The router's
  functions take positional arguments; \<open>UNISWAP_ROUTER_ABI\<close> lists the names of their
  inputs in order, as the ABI of the script does, and \<open>swap_arg\<close> reads one named
  argument of every router call of a trace.
\<close>

definition trace :: "(world \<Rightarrow> 'a \<times> world) \<Rightarrow> world \<Rightarrow> event list" where
  "trace operation w = drop (length (log w)) (log (snd (operation w)))"

definition draw :: "nat \<Rightarrow> int \<Rightarrow> int \<Rightarrow> world \<Rightarrow> int" where
  \<comment> \<open>what the k-th next call of the random module returns, when it is \<open>randint(a, b)\<close>\<close>
  "draw k a b w = a + rng w (draws w + k) mod (b - a + 1)"

definition draw_hash :: "nat \<Rightarrow> world \<Rightarrow> string" where
  \<comment> \<open>the hash digits \<open>send_raw_transaction\<close> returns when it makes the k-th next
      draw\<close>
  "draw_hash k w = rjust (hex_nat (rng w (draws w + k) mod 2 ^ 64)) 16 CHR ''0''"

definition UNISWAP_ROUTER_ABI :: "(string \<times> string list) list" where
  "UNISWAP_ROUTER_ABI =
     [(''swapExactETHForTokens'', [''amountOutMin'', ''path'', ''to'', ''deadline'']),
      (''swapExactTokensForETH'',
         [''amountIn'', ''amountOutMin'', ''path'', ''to'', ''deadline''])]"

fun swap_arg :: "string \<Rightarrow> event list \<Rightarrow> (string \<times> pyval option) list" where
  "swap_arg k [] = []"
| "swap_arg k (Invoke c n args # evs) =
     (case map_of UNISWAP_ROUTER_ABI n of
        None \<Rightarrow> swap_arg k evs
      | Some inputs \<Rightarrow> (n, map_of (zip inputs args) k) # swap_arg k evs)"
| "swap_arg k (ev # evs) = swap_arg k evs"

fun tx_nonces :: "event list \<Rightarrow> (string \<times> pyval) list" where
  \<comment> \<open>function name and nonce of every transaction built\<close>
  "tx_nonces [] = []"
| "tx_nonces (BuildTransaction n tx # evs) = (n, dict_get tx ''nonce'' PyNone) # tx_nonces evs"
| "tx_nonces (ev # evs) = tx_nonces evs"

fun block_timestamps :: "event list \<Rightarrow> int list" where
  \<comment> \<open>the timestamps of the blocks read\<close>
  "block_timestamps [] = []"
| "block_timestamps (GetBlock arg ts # evs) = ts # block_timestamps evs"
| "block_timestamps (ev # evs) = block_timestamps evs"

fun is_chain_read :: "event \<Rightarrow> bool" where
  \<comment> \<open>the calls that read chain state\<close>
  "is_chain_read (Call n v) = True"
| "is_chain_read (GetBlock a t) = True"
| "is_chain_read (GetTransactionCount a n) = True"
| "is_chain_read ev = False"

fun is_count_or_send :: "event \<Rightarrow> bool" where
  "is_count_or_send (GetTransactionCount a n) = True"
| "is_count_or_send (SendRawTransaction raw h) = True"
| "is_count_or_send ev = False"

fun is_tx_step :: "event \<Rightarrow> bool" where
  \<comment> \<open>creating a router call, building, signing and submitting a transaction\<close>
  "is_tx_step (Invoke c n args) = (map_of UNISWAP_ROUTER_ABI n \<noteq> None)"
| "is_tx_step (BuildTransaction n tx) = True"
| "is_tx_step (SignTransaction tx) = True"
| "is_tx_step (SendRawTransaction raw h) = True"
| "is_tx_step ev = False"




definition to_lower :: "char \<Rightarrow> char" where
  "to_lower c =
     (let n = (of_char c :: nat) in if 65 \<le> n \<and> n \<le> 90 then char_of (n + 32) else c)"

definition same_up_to_case :: "string \<Rightarrow> string \<Rightarrow> bool" where
  \<comment> \<open>two addresses that differ at most in the case of their ASCII letters\<close>
  "same_up_to_case a b = (map to_lower a = map to_lower b)"

subsection \<open>Sample inputs\<close>

definition sample_token :: string where
  "sample_token = ''0x000000000000000000000000000000000000dead''"

definition sample_world :: "int \<Rightarrow> world" where
  \<comment> \<open>every draw of the random module has the raw value \<open>r\<close>; the clock starts at 1000
      and advances by 15 between reads\<close>
  "sample_world r =
     \<lparr>rng = (\<lambda>k. r), draws = 0, clock = (\<lambda>k. 1000 + 15 * int k), ticks = 0,
      ADDRESS = ''0x00000000000000000000000000000000000000aa'', log = []\<rparr>"

definition three_trillion_three :: pyfloat where
  \<comment> \<open>the float \<open>3000000000003.0\<close>\<close>
  "three_trillion_three = Finite False 6144000000006144 (- 11)"

definition one_hundredth :: pyfloat where
  \<comment> \<open>the float \<open>0.01\<close>\<close>
  "one_hundredth = Finite False 5764607523034235 (- 59)"


section \<open>Evaluation and helper lemmas\<close>

lemma to_wei_five_gwei: "to_wei str_5 ''gwei'' = Inr 5000000000"
  by code_simp

lemma to_wei_one_hundredth: "to_wei (py_float one_hundredth) ''ether'' = Inr 10000000000000000"
  by code_simp

lemma sell_amount_200_50: "sell_amount 200 50 = Inr 100"
  by code_simp

lemma sell_amount_200_150: "sell_amount 200 150 = Inr 300"
  by code_simp



lemma float_of_int_e18:
  "float_of_int 1000000000000000000 = Inr (Finite False 7812500000000000 7)"
  by code_simp

lemma float_of_int_e9:
  "float_of_int 1000000000 = Inr (Finite False 8388608000000000 (- 23))"
  by code_simp

lemma to_wei_three_trillion_three:
  "to_wei (py_float three_trillion_three) ''ether'' = Inr 3000000000002999738480679976960"
  by code_simp

lemma truediv_three_trillion_three:
  "int_truediv 3000000000002999738480679976960 1000000000000000000 =
     Inr (Finite False 6144000000006143 (- 11))"
  by code_simp

lemma ten_thousandths_three_trillion_three:
  "ten_thousandths 6144000000006143 (- 11) = 30000000000029995"
  by code_simp





lemma sell_amount_2_53: "sell_amount 9007199254740993 100 = Inr 9007199254740992"
  by code_simp

lemmas client_defs = emit_def randint_def getrandbits_def fast_hex_def now_ts_def get_block_def
  get_transaction_count_def send_raw_transaction_def to_hex_def to_checksum_address_def
  sign_transaction_def dict_get_def dict_update_def call_def build_transaction_def contract_def
  balanceOf_def decimals_def symbol_def approve_def swapExactETHForTokens_def
  swapExactTokensForETH_def router_def

lemma draws_offsets:
  "draws w + 2 = Suc (Suc (draws w))"
  "draws w + 3 = Suc (Suc (Suc (draws w)))"
  "draws w + 4 = Suc (Suc (Suc (Suc (draws w))))"
  "draws w + 5 = Suc (Suc (Suc (Suc (Suc (draws w)))))"
  by simp_all

lemmas run_defs = swap_sell_def swap_buy_def trace_def draw_def draw_hash_def client_defs
  to_wei_five_gwei Let_def UNISWAP_ROUTER_ABI_def draws_offsets

lemma draw_sample [simp]: "draw k a b (sample_world r) = a + r mod (b - a + 1)"
  by (simp add: draw_def sample_world_def)

lemma draw_range: "a \<le> b \<Longrightarrow> a \<le> draw k a b w \<and> draw k a b w \<le> b"
proof -
  assume "a \<le> b"
  then have pos: "0 < b - a + 1" by simp
  have "0 \<le> rng w (draws w + k) mod (b - a + 1)"
    using pos by (rule pos_mod_sign)
  moreover have "rng w (draws w + k) mod (b - a + 1) < b - a + 1"
    using pos by (rule pos_mod_bound)
  ultimately show ?thesis by (simp add: draw_def)
qed

subsection \<open>The float of a bounded quotient is finite\<close>

lemma bit_length_nonneg: "0 \<le> bit_length n"
  by (induction n rule: bit_length.induct) (simp add: bit_length.simps)

lemma bit_length_pos: "0 < n \<Longrightarrow> 1 \<le> bit_length n"
  using bit_length_nonneg [of "n div 2"] by (simp add: bit_length.simps)

lemma bit_length_le: "n < 2 ^ k \<Longrightarrow> bit_length n \<le> int k"
proof (induction k arbitrary: n)
  case 0
  then show ?case by (simp add: bit_length.simps)
next
  case (Suc k)
  show ?case
  proof (cases "n \<le> 0")
    case True
    then show ?thesis by (simp add: bit_length.simps)
  next
    case False
    from Suc.prems have "n div 2 < 2 ^ k" by simp
    then have "bit_length (n div 2) \<le> int k" by (rule Suc.IH)
    with False show ?thesis by (simp add: bit_length.simps)
  qed
qed

lemma lsb_exponent_le:
  assumes "n < 2 ^ k" "0 < d"
  shows "lsb_exponent n d \<le> max (int k - 53) (- 1074)"
proof -
  have "bit_length n \<le> int k" using assms(1) by (rule bit_length_le)
  moreover have "1 \<le> bit_length d" using assms(2) by (rule bit_length_pos)
  ultimately show ?thesis
    by (auto simp: lsb_exponent_def Let_def split: prod.splits)
qed

lemma round_to_double_finite:
  assumes "n < 2 ^ 1000" "0 < d"
  shows "\<exists>m e. round_to_double n d = Some (m, e)"
proof -
  have "lsb_exponent n d \<le> 947" using lsb_exponent_le [OF assms] by simp
  then show ?thesis by (simp add: round_to_double_def Let_def)
qed

lemma sell_amount_finite:
  assumes "\<bar>b * p\<bar> < 2 ^ 1000"
  shows "\<exists>a. sell_amount b p = Inr a"
proof -
  obtain m e where "round_to_double \<bar>b * p\<bar> \<bar>100\<bar> = Some (m, e)"
    using round_to_double_finite [OF assms, of "\<bar>100\<bar>"] by auto
  then show ?thesis by (simp add: sell_amount_def int_truediv_def Let_def)
qed

lemma sell_amount_drawn:
  assumes "\<bar>p\<bar> \<le> 2 ^ 900"
  shows "\<exists>a. sell_amount (draw 0 1 (10 ^ 18) w) p = Inr a"
proof -
  let ?b = "draw 0 1 (10 ^ 18) w"
  have b: "1 \<le> ?b \<and> ?b \<le> 10 ^ 18" by (rule draw_range) simp
  have "\<bar>?b * p\<bar> = ?b * \<bar>p\<bar>" using b by (simp add: abs_mult)
  also have "\<dots> \<le> 10 ^ 18 * 2 ^ 900"
    using b assms by (intro mult_mono) simp_all
  also have "\<dots> < (2::int) ^ 1000" by simp
  finally show ?thesis by (rule sell_amount_finite)
qed

subsection \<open>The accuracy of the float operations\<close>

text \<open>
  Rounding to a double moves a quotient below \<open>2^B\<close> by at most half a unit in the
  last place, \<open>2^(B - 54)\<close>; rendering with four fraction digits moves a float by at
  most half a ten-thousandth.
\<close>


lemma round_half_even_bound:
  assumes "0 < d"
  shows "2 * \<bar>round_half_even n d * d - n\<bar> \<le> d"
proof -
  define q where "q = n div d"
  define r where "r = n mod d"
  have n: "n = q * d + r" by (simp add: q_def r_def)
  have r: "0 \<le> r" "r < d" using assms by (simp_all add: r_def)
  show ?thesis
    unfolding round_half_even_def Let_def q_def [symmetric] r_def [symmetric]
    using r by (auto simp: n algebra_simps)
qed

lemma round_half_even_nonneg:
  assumes "0 \<le> n" "0 < d"
  shows "0 \<le> round_half_even n d"
proof -
  have "0 \<le> n div d" using assms by (simp add: pos_imp_zdiv_nonneg_iff)
  then show ?thesis by (simp add: round_half_even_def Let_def)
qed

lemma round_half_even_real:
  assumes "0 < d"
  shows "\<bar>real_of_int (round_half_even n d) - real_of_int n / real_of_int d\<bar> \<le> 1 / 2"
proof -
  let ?m = "round_half_even n d"
  define X where "X = real_of_int ?m * real_of_int d - real_of_int n"
  have d: "0 < real_of_int d" using assms by simp
  have "2 * \<bar>?m * d - n\<bar> \<le> d" using assms by (rule round_half_even_bound)
  then have "real_of_int (2 * \<bar>?m * d - n\<bar>) \<le> real_of_int d"
    by (simp only: of_int_le_iff)
  then have "2 * \<bar>X\<bar> \<le> real_of_int d"
    by (simp add: X_def)
  then have "\<bar>X\<bar> / real_of_int d \<le> 1 / 2"
    using d by (simp add: field_simps)
  moreover have "real_of_int ?m - real_of_int n / real_of_int d = X / real_of_int d"
    using d by (simp add: X_def field_simps)
  ultimately show ?thesis
    using d by (simp add: abs_divide)
qed



lemma bit_length_lower: "0 < n \<Longrightarrow> 2 ^ nat (bit_length n - 1) \<le> n"
proof (induction n rule: bit_length.induct)
  case (1 n)
  show ?case
  proof (cases "n div 2 = 0")
    case True
    then have "bit_length (n div 2) = 0" by (simp add: bit_length.simps)
    with "1.prems" show ?thesis by (simp add: bit_length.simps)
  next
    case False
    with "1.prems" have pos: "0 < n div 2" by (simp add: pos_imp_zdiv_pos_iff)
    have nat_eq: "nat (bit_length (n div 2)) = Suc (nat (bit_length (n div 2) - 1))"
      using pos bit_length_nonneg [of "n div 2 div 2"] by (simp add: bit_length.simps [of "n div 2"])
    have "2 ^ nat (bit_length (n div 2) - 1) \<le> n div 2"
      using "1.prems" pos by (intro "1.IH") simp_all
    then have "2 ^ nat (bit_length (n div 2)) \<le> 2 * (n div 2)"
      by (simp add: nat_eq)
    also have "\<dots> \<le> n" by simp
    finally show ?thesis using "1.prems" by (simp add: bit_length.simps [of n])
  qed
qed

lemma bit_length_upper: "n < 2 ^ nat (bit_length n)"
proof (induction n rule: bit_length.induct)
  case (1 n)
  show ?case
  proof (cases "n \<le> 0")
    case True
    then show ?thesis by (simp add: bit_length.simps)
  next
    case False
    then have "n div 2 < 2 ^ nat (bit_length (n div 2))" by (intro "1.IH") simp
    then have "n < 2 * 2 ^ nat (bit_length (n div 2))" by simp
    moreover have "nat (1 + bit_length (n div 2)) = Suc (nat (bit_length (n div 2)))"
      using bit_length_nonneg [of "n div 2"] by simp
    ultimately show ?thesis using False by (simp add: bit_length.simps [of n])
  qed
qed

lemma bit_length_lower_real:
  assumes "0 < n"
  shows "2 powi (bit_length n - 1) \<le> real_of_int n"
proof -
  have "1 \<le> bit_length n"
    using assms bit_length_nonneg [of "n div 2"] by (simp add: bit_length.simps [of n])
  then have "(2::real) powi (bit_length n - 1) = 2 ^ nat (bit_length n - 1)"
    by (simp add: power_int_nonneg_exp)
  also have "\<dots> = real_of_int (2 ^ nat (bit_length n - 1))" by simp
  also have "\<dots> \<le> real_of_int n"
    using bit_length_lower [OF assms] by (simp only: of_int_le_iff)
  finally show ?thesis .
qed

lemma bit_length_upper_real: "real_of_int n < 2 powi (bit_length n)"
proof -
  have "real_of_int n < real_of_int (2 ^ nat (bit_length n))"
    using bit_length_upper [of n] by (simp only: of_int_less_iff)
  also have "\<dots> = 2 powi (bit_length n)"
    using bit_length_nonneg [of n] by (simp add: power_int_nonneg_exp)
  finally show ?thesis .
qed

lemma scaled_val:
  assumes "0 < d" "scaled n d e = (a, b)"
  shows "0 < b \<and> real_of_int a / real_of_int b = real_of_int n / real_of_int d / 2 powi e"
proof (cases "0 \<le> e")
  case True
  with assms have "a = n" "b = d * 2 ^ nat e" by (simp_all add: scaled_def)
  with True assms(1) show ?thesis by (simp add: power_int_nonneg_exp)
next
  case False
  with assms have ab: "a = n * 2 ^ nat (- e)" "b = d" by (simp_all add: scaled_def)
  have "(2::real) powi e = inverse (2 powi (- e))" by (simp add: power_int_minus)
  also have "\<dots> = inverse (2 ^ nat (- e))"
    using False by (simp add: power_int_nonneg_exp)
  finally show ?thesis using assms(1) ab by (simp add: field_simps)
qed


lemma powi_less_imp:
  assumes "(2::real) powi a < 2 powi b"
  shows "a < b"
proof (rule ccontr)
  assume "\<not> a < b"
  then have "b \<le> a" by simp
  then have "(2::real) powi b \<le> 2 powi a" by (rule power_int_increasing) simp
  with assms show False by simp
qed

lemma lsb_exponent_upper:
  assumes n: "0 < n" and d: "0 < d"
    and v: "real_of_int n / real_of_int d < 2 powi B"
  shows "lsb_exponent n d \<le> max (B - 53) (- 1074)"
proof -
  define k where "k = bit_length n - bit_length d"
  define v' where "v' = real_of_int n / real_of_int d"
  have dr: "0 < real_of_int d" using d by simp
  have "2 powi (k - 1) = 2 powi (bit_length n - 1) / (2::real) powi (bit_length d)"
    by (simp add: k_def power_int_diff)
  also have "\<dots> \<le> real_of_int n / 2 powi (bit_length d)"
    using bit_length_lower_real [OF n] by (simp add: divide_right_mono)
  also have "\<dots> < real_of_int n / real_of_int d"
    using bit_length_upper_real [of d] n dr by (simp add: divide_strict_left_mono)
  finally have low: "2 powi (k - 1) < v'" by (simp add: v'_def)
  then have "(2::real) powi (k - 1) < 2 powi B" using v by (simp add: v'_def)
  then have kB: "k \<le> B" using powi_less_imp [of "k - 1" B] by simp
  obtain a b where ab: "scaled n d k = (a, b)" by (cases "scaled n d k")
  have sv: "0 < b \<and> real_of_int a / real_of_int b = v' / 2 powi k"
    using scaled_val [OF d ab] by (simp add: v'_def)
  have "(if b \<le> a then k else k - 1) \<le> B - 1"
  proof (cases "b \<le> a")
    case True
    have br: "0 < real_of_int b" using sv by simp
    have "real_of_int b \<le> real_of_int a" using True by simp
    then have "1 \<le> real_of_int a / real_of_int b" using br by (simp add: le_divide_eq)
    then have "1 \<le> v' / 2 powi k" using sv by simp
    moreover have "0 < (2::real) powi k" by simp
    ultimately have "2 powi k \<le> v'" by (simp add: le_divide_eq)
    then have "(2::real) powi k < 2 powi B" using v by (simp add: v'_def)
    then have "k < B" by (rule powi_less_imp)
    with True show ?thesis by simp
  next
    case False
    with kB show ?thesis by simp
  qed
  then show ?thesis
    by (simp add: lsb_exponent_def Let_def k_def [symmetric] ab)
qed

lemma lsb_exponent_lower: "- 1074 \<le> lsb_exponent n d"
  by (simp add: lsb_exponent_def Let_def)


lemma scaled_nonneg:
  assumes "0 \<le> n" "scaled n d e = (a, b)"
  shows "0 \<le> a"
  using assms by (auto simp: scaled_def split: if_splits)

lemma round_to_double_acc:
  assumes n: "0 \<le> n" and d: "0 < d"
    and v: "real_of_int n / real_of_int d < 2 powi B" and B: "B \<le> 1023"
  shows "\<exists>m e. round_to_double n d = Some (m, e) \<and> 0 \<le> m \<and>
    \<bar>real_of_int m * 2 powi e - real_of_int n / real_of_int d\<bar> \<le> 2 powi (max (B - 54) (- 1075))"
proof (cases "n = 0")
  case True
  then show ?thesis by (simp add: round_to_double_def)
next
  case False
  with n have npos: "0 < n" by simp
  define v' where "v' = real_of_int n / real_of_int d"
  define e0 where "e0 = lsb_exponent n d"
  have e0: "e0 \<le> max (B - 53) (- 1074)"
    unfolding e0_def using npos d v by (rule lsb_exponent_upper)
  obtain a b where ab: "scaled n d e0 = (a, b)" by (cases "scaled n d e0")
  have sv: "0 < b" "real_of_int a / real_of_int b = v' / 2 powi e0"
    using scaled_val [OF d ab] by (simp_all add: v'_def)
  have a: "0 \<le> a" using n ab by (rule scaled_nonneg)
  define m0 where "m0 = round_half_even a b"
  have m0: "0 \<le> m0" unfolding m0_def using a sv(1) by (rule round_half_even_nonneg)
  have "\<bar>real_of_int m0 - v' / 2 powi e0\<bar> \<le> 1 / 2"
    using round_half_even_real [OF sv(1), of a] by (simp add: m0_def sv(2))
  then have "\<bar>real_of_int m0 - v' / 2 powi e0\<bar> * 2 powi e0 \<le> 1 / 2 * 2 powi e0"
    by (rule mult_right_mono) simp
  moreover have "\<bar>real_of_int m0 - v' / 2 powi e0\<bar> * 2 powi e0 =
      \<bar>real_of_int m0 * 2 powi e0 - v'\<bar>"
  proof -
    have "\<bar>real_of_int m0 - v' / 2 powi e0\<bar> * 2 powi e0 =
        \<bar>(real_of_int m0 - v' / 2 powi e0) * 2 powi e0\<bar>"
      by (simp add: abs_mult)
    also have "(real_of_int m0 - v' / 2 powi e0) * 2 powi e0 = real_of_int m0 * 2 powi e0 - v'"
      by (simp add: field_simps)
    finally show ?thesis .
  qed
  moreover have "1 / 2 * (2::real) powi e0 = 2 powi (e0 - 1)"
    by (simp add: power_int_diff)
  ultimately have err: "\<bar>real_of_int m0 * 2 powi e0 - v'\<bar> \<le> 2 powi (e0 - 1)"
    by simp
  have "(2::real) powi (e0 - 1) \<le> 2 powi (max (B - 54) (- 1075))"
    using e0 by (intro power_int_increasing) auto
  with err have err': "\<bar>real_of_int m0 * 2 powi e0 - v'\<bar> \<le> 2 powi (max (B - 54) (- 1075))"
    by simp
  define m where "m = (if m0 = 2 ^ 53 then 2 ^ 52 else m0)"
  define e where "e = (if m0 = 2 ^ 53 then e0 + 1 else e0)"
  have val: "real_of_int m * 2 powi e = real_of_int m0 * 2 powi e0"
    by (simp add: m_def e_def power_int_add)
  have "e0 \<le> 970" using e0 B by linarith
  then have "e \<le> 971" by (simp add: e_def)
  then have "round_to_double n d = Some (m, e)"
    using False
    by (simp add: round_to_double_def Let_def e0_def [symmetric] ab m0_def [symmetric]
        m_def e_def)
  moreover have "0 \<le> m" using m0 by (simp add: m_def)
  ultimately show ?thesis using err' val by (simp add: v'_def)
qed


lemma int_truediv_acc:
  assumes a: "0 \<le> a" and b: "0 < b"
    and v: "real_of_int a / real_of_int b < 2 powi B" and B: "B \<le> 1023"
  shows "\<exists>m e. int_truediv a b = Inr (Finite False m e) \<and> 0 \<le> m \<and>
    \<bar>real_of_int m * 2 powi e - real_of_int a / real_of_int b\<bar> \<le> 2 powi (max (B - 54) (- 1075))"
proof -
  obtain m e where "round_to_double a b = Some (m, e)" "0 \<le> m"
    "\<bar>real_of_int m * 2 powi e - real_of_int a / real_of_int b\<bar> \<le> 2 powi (max (B - 54) (- 1075))"
    using round_to_double_acc [OF a b v B] by blast
  then show ?thesis using a b by (simp add: int_truediv_def)
qed

lemma ten_thousandths_acc:
  assumes "0 \<le> m"
  shows "0 \<le> ten_thousandths m e \<and>
    \<bar>real_of_int (ten_thousandths m e) - real_of_int m * 2 powi e * 10000\<bar> \<le> 1 / 2"
proof -
  obtain a b where ab: "scaled (m * 10000) 1 (- e) = (a, b)"
    by (cases "scaled (m * 10000) 1 (- e)")
  have sv: "0 < b" "real_of_int a / real_of_int b = real_of_int m * 2 powi e * 10000"
    using scaled_val [OF _ ab] by (simp_all add: power_int_minus field_simps)
  have "0 \<le> a" using scaled_nonneg [OF _ ab] assms by simp
  then have "0 \<le> round_half_even a b" using sv(1) by (rule round_half_even_nonneg)
  moreover have "\<bar>real_of_int (round_half_even a b) - real_of_int m * 2 powi e * 10000\<bar> \<le> 1 / 2"
    using round_half_even_real [OF sv(1), of a] by (simp add: sv(2))
  ultimately show ?thesis by (simp add: ten_thousandths_def ab)
qed

lemma str_nat_length:
  assumes "0 \<le> r" "r < 10000"
  shows "1 \<le> length (str_nat r) \<and> length (str_nat r) \<le> 4"
proof -
  have d1: "r div 10 < 1000" using assms by simp
  have d2: "r div 10 div 10 < 100" using assms by simp
  have d3: "r div 10 div 10 div 10 < 10" using assms by simp
  show ?thesis
    using d3
    by (simp add: str_nat.simps [of r] str_nat.simps [of "r div 10"]
        str_nat.simps [of "r div 10 div 10"] str_nat.simps [of "r div 10 div 10 div 10"])
qed

lemma four_digits:
  assumes "0 \<le> q"
  shows "length (rjust (str_nat (q mod 10000)) 4 CHR ''0'') = 4"
proof -
  have "0 \<le> q mod 10000" "q mod 10000 < 10000" by simp_all
  then have "1 \<le> length (str_nat (q mod 10000)) \<and> length (str_nat (q mod 10000)) \<le> 4"
    by (rule str_nat_length)
  then show ?thesis by (simp add: rjust_def)
qed


lemma powi_neg_div: "x / (2::real) powi (- k) = x * 2 powi k"
  by (simp add: power_int_minus field_simps)

lemma float_mul_acc:
  assumes m: "0 \<le> m" "0 \<le> m'"
    and v: "real_of_int m * 2 powi e * (real_of_int m' * 2 powi e') < 2 powi B" and B: "B \<le> 1023"
  shows "\<exists>p q. float_mul (Finite False m e) (Finite False m' e') = Finite False p q \<and> 0 \<le> p \<and>
    \<bar>real_of_int p * 2 powi q - real_of_int m * 2 powi e * (real_of_int m' * 2 powi e')\<bar>
      \<le> 2 powi (max (B - 54) (- 1075))"
proof -
  obtain a b where ab: "scaled (m * m') 1 (- e - e') = (a, b)"
    by (cases "scaled (m * m') 1 (- e - e')")
  have ex: "- e - e' = - (e + e')" by simp
  have sv0: "0 < b \<and>
      real_of_int a / real_of_int b = real_of_int (m * m') / real_of_int 1 / 2 powi (- e - e')"
    by (rule scaled_val [OF _ ab]) simp
  have "real_of_int (m * m') / real_of_int 1 / 2 powi (- e - e') =
      real_of_int m * real_of_int m' * 2 powi (e + e')"
    by (simp only: ex powi_neg_div of_int_mult of_int_1 div_by_1)
  also have "\<dots> = real_of_int m * 2 powi e * (real_of_int m' * 2 powi e')"
    by (simp add: power_int_add)
  finally have sv: "0 < b"
    "real_of_int a / real_of_int b = real_of_int m * 2 powi e * (real_of_int m' * 2 powi e')"
    using sv0 by simp_all
  have a: "0 \<le> a" using scaled_nonneg [OF _ ab] m by simp
  have v': "real_of_int a / real_of_int b < 2 powi B" using v by (simp add: sv(2))
  obtain p q where "round_to_double a b = Some (p, q)" "0 \<le> p"
    "\<bar>real_of_int p * 2 powi q - real_of_int a / real_of_int b\<bar> \<le> 2 powi (max (B - 54) (- 1075))"
    using round_to_double_acc [OF a sv(1) v' B] by blast
  then show ?thesis by (simp add: ab sv(2))
qed

lemma int_of_float_acc:
  assumes "0 \<le> p"
  shows "\<exists>n. int_of_float (Finite False p q) = Inr n \<and> 0 \<le> n \<and>
    real_of_int n \<le> real_of_int p * 2 powi q \<and> real_of_int p * 2 powi q < real_of_int n + 1"
proof (cases "0 \<le> q")
  case True
  then have "(2::real) powi q = 2 ^ nat q"
    by (rule power_int_nonneg_exp)
  with True assms show ?thesis by (simp add: Let_def)
next
  case False
  define k :: int where "k = 2 ^ nat (- q)"
  have k: "0 < k" by (simp add: k_def)
  have "(2::real) powi q = inverse (2 powi (- q))" by (simp add: power_int_minus)
  also have "\<dots> = inverse (real_of_int k)"
    using False by (simp add: power_int_nonneg_exp k_def)
  finally have val: "real_of_int p * 2 powi q = real_of_int p / real_of_int k"
    by (simp add: field_simps)
  have fl: "\<lfloor>real_of_int p / real_of_int k\<rfloor> = p div k" by (rule floor_divide_of_int_eq)
  have "real_of_int (p div k) \<le> real_of_int p / real_of_int k"
    using of_int_floor_le [of "real_of_int p / real_of_int k"] by (simp add: fl)
  moreover have "real_of_int p / real_of_int k < real_of_int (p div k) + 1"
    using floor_correct [of "real_of_int p / real_of_int k"] by (simp add: fl)
  moreover have "0 \<le> p div k" using assms k by (simp add: pos_imp_zdiv_nonneg_iff)
  ultimately show ?thesis using False by (simp add: Let_def val k_def)
qed


lemma ten_thousandths_close:
  assumes "0 \<le> m"
  shows "\<bar>real_of_int (ten_thousandths m e) / 10 ^ 4 - real_of_int m * 2 powi e\<bar> \<le> 1 / (2 * 10 ^ 4)"
proof -
  let ?q = "ten_thousandths m e"
  have "\<bar>real_of_int ?q / 10 ^ 4 - real_of_int m * 2 powi e\<bar> =
      \<bar>real_of_int ?q - real_of_int m * 2 powi e * 10000\<bar> / 10 ^ 4"
    by (simp add: abs_divide [symmetric] field_simps)
  also have "\<dots> \<le> (1 / 2) / 10 ^ 4"
    using ten_thousandths_acc [OF assms, of e] by (intro divide_right_mono) simp_all
  finally show ?thesis by simp
qed

lemma round_trip_generic:
  fixes X :: real
  assumes m: "0 \<le> m" and X: "X = real_of_int m * 2 powi e" and small: "X < 2 ^ 38"
    and D: "0 < D" and mD: "0 \<le> mD" and valD: "real_of_int mD * 2 powi eD = real_of_int D"
    and K: "real_of_int D < 2 powi K" "30 \<le> K" "K \<le> 60"
    and budget: "(2 powi (K - 16) + 1) / real_of_int D + 2 powi (- 15) \<le> 1 / (2 * 10 ^ 4)"
  shows "\<exists>n m2 e2.
     int_of_float (float_mul (Finite False m e) (Finite False mD eD)) = Inr n \<and>
     int_truediv n D = Inr (Finite False m2 e2) \<and> 0 \<le> m2 \<and>
     \<bar>real_of_int m2 * 2 powi e2 - X\<bar> \<le> 1 / (2 * 10 ^ 4) \<and>
     \<bar>real_of_int (ten_thousandths m2 e2) / 10 ^ 4 - X\<bar> \<le> 1 / 10 ^ 4"
proof -
  have X0: "0 \<le> X" using m by (simp add: X)
  have Dr: "0 < real_of_int D" using D by simp
  have prod: "X * real_of_int D < 2 powi (38 + K)"
  proof -
    have "X * real_of_int D \<le> 2 ^ 38 * real_of_int D"
      using small Dr by (intro mult_right_mono) simp_all
    also have "\<dots> < 2 ^ 38 * 2 powi K" using K(1) by simp
    also have "\<dots> = 2 powi (38 + K)" by (simp add: power_int_add)
    finally show ?thesis .
  qed
  have prod': "real_of_int m * 2 powi e * (real_of_int mD * 2 powi eD) < 2 powi (38 + K)"
    using prod by (simp add: X valD)
  have "38 + K \<le> 1023" using K by simp
  from float_mul_acc [OF m mD prod' this]
  obtain p q where pq: "float_mul (Finite False m e) (Finite False mD eD) = Finite False p q"
      "0 \<le> p"
    and e1: "\<bar>real_of_int p * 2 powi q - X * real_of_int D\<bar> \<le> 2 powi (max (38 + K - 54) (- 1075))"
    by (auto simp: X valD)
  have "max (38 + K - 54) (- 1075) = K - 16" using K by simp
  with e1 have e1': "\<bar>real_of_int p * 2 powi q - X * real_of_int D\<bar> \<le> 2 powi (K - 16)"
    by simp
  from int_of_float_acc [OF pq(2), of q]
  obtain n where n: "int_of_float (Finite False p q) = Inr n" "0 \<le> n"
      "real_of_int n \<le> real_of_int p * 2 powi q"
      "real_of_int p * 2 powi q < real_of_int n + 1"
    by blast
  have nb: "\<bar>real_of_int n - X * real_of_int D\<bar> \<le> 2 powi (K - 16) + 1"
    using e1' n(3,4) by linarith
  have "real_of_int n / real_of_int D - X = (real_of_int n - X * real_of_int D) / real_of_int D"
    using Dr by (simp add: field_simps)
  then have "\<bar>real_of_int n / real_of_int D - X\<bar> =
      \<bar>real_of_int n - X * real_of_int D\<bar> / real_of_int D"
    using Dr by (simp add: abs_divide)
  also have "\<dots> \<le> (2 powi (K - 16) + 1) / real_of_int D"
    using nb Dr by (intro divide_right_mono) simp_all
  finally have nd: "\<bar>real_of_int n / real_of_int D - X\<bar> \<le> (2 powi (K - 16) + 1) / real_of_int D" .
  have pos15: "0 \<le> (2::real) powi (- 15)" by simp
  have half: "(1::real) / (2 * 10 ^ 4) \<le> 1" by simp
  have "real_of_int n / real_of_int D < 2 ^ 38 + 1"
    using nd budget small pos15 half by linarith
  also have "\<dots> \<le> (2::real) powi 39" by simp
  finally have v2: "real_of_int n / real_of_int D < 2 powi 39" .
  from int_truediv_acc [OF n(2) D v2]
  obtain m2 e2 where y: "int_truediv n D = Inr (Finite False m2 e2)" "0 \<le> m2"
    and e2: "\<bar>real_of_int m2 * 2 powi e2 - real_of_int n / real_of_int D\<bar>
        \<le> 2 powi (max (39 - 54) (- 1075))"
    by auto
  have e2': "\<bar>real_of_int m2 * 2 powi e2 - real_of_int n / real_of_int D\<bar> \<le> 2 powi (- 15)"
    using e2 by simp
  have tot: "\<bar>real_of_int m2 * 2 powi e2 - X\<bar> \<le> 1 / (2 * 10 ^ 4)"
    using e2' nd budget by linarith
  have "\<bar>real_of_int (ten_thousandths m2 e2) / 10 ^ 4 - real_of_int m2 * 2 powi e2\<bar>
      \<le> 1 / (2 * 10 ^ 4)"
    using y(2) by (rule ten_thousandths_close)
  moreover have "(1::real) / (2 * 10 ^ 4) + 1 / (2 * 10 ^ 4) = 1 / 10 ^ 4" by simp
  ultimately have "\<bar>real_of_int (ten_thousandths m2 e2) / 10 ^ 4 - X\<bar> \<le> 1 / 10 ^ 4"
    using tot by linarith
  with pq(1) n(1) y tot show ?thesis by auto
qed

subsection \<open>Where the sell amount is exact\<close>

text \<open>
  A product \<open>balance * percentage\<close> below \<open>2^53\<close> loses nothing in the float division:
  there \<open>int(balance * percentage / 100)\<close> is the floor of the quotient.
\<close>

lemma round_half_even_multiple: "0 < d \<Longrightarrow> round_half_even (c * d) d = c"
  by (simp add: round_half_even_def Let_def)

lemma round_to_double_exact:
  assumes k: "0 \<le> k" "k < 2 ^ 53" and d: "0 < d"
  shows "\<exists>m e. round_to_double (k * d) d = Some (m, e) \<and> 0 \<le> m \<and>
    real_of_int m * 2 powi e = real_of_int k"
proof (cases "k = 0")
  case True
  then show ?thesis by (simp add: round_to_double_def)
next
  case False
  with k have kpos: "0 < k" by simp
  then have npos: "0 < k * d" using d by simp
  define e0 where "e0 = lsb_exponent (k * d) d"
  have "real_of_int (k * d) / real_of_int d = real_of_int k" using d by simp
  moreover have "real_of_int k < 2 powi 53"
    using k(2) by (metis of_int_less_iff of_int_numeral of_int_power power_int_numeral)
  ultimately have "real_of_int (k * d) / real_of_int d < 2 powi 53" by simp
  then have "e0 \<le> max (53 - 53) (- 1074)"
    unfolding e0_def using npos d by (intro lsb_exponent_upper)
  then have e0: "e0 \<le> 0" by simp
  define E where "E = nat (- e0)"
  have sc: "scaled (k * d) d e0 = (k * 2 ^ E * d, d)"
    using e0 by (cases "e0 = 0") (simp_all add: scaled_def E_def)
  define m0 where "m0 = k * 2 ^ E"
  have rhe: "round_half_even (k * 2 ^ E * d) d = m0"
    unfolding m0_def using d by (rule round_half_even_multiple)
  have "(2::real) powi e0 = inverse (2 powi (- e0))" by (simp add: power_int_minus)
  also have "\<dots> = inverse (2 ^ E)" using e0 by (simp add: power_int_nonneg_exp E_def)
  finally have val0: "real_of_int m0 * 2 powi e0 = real_of_int k"
    by (simp add: m0_def)
  define m where "m = (if m0 = 2 ^ 53 then 2 ^ 52 else m0)"
  define e where "e = (if m0 = 2 ^ 53 then e0 + 1 else e0)"
  have val: "real_of_int m * 2 powi e = real_of_int m0 * 2 powi e0"
    by (simp add: m_def e_def power_int_add)
  have "e \<le> 971" using e0 by (simp add: e_def)
  then have "round_to_double (k * d) d = Some (m, e)"
    using False d
    by (simp add: round_to_double_def Let_def e0_def [symmetric] sc rhe m_def e_def)
  moreover have "0 \<le> m" using kpos by (simp add: m_def m0_def)
  ultimately show ?thesis using val val0 by simp
qed


lemma sell_amount_exact:
  assumes b: "0 \<le> b" and p: "0 \<le> p" and small: "b * p < 2 ^ 53"
  shows "sell_amount b p = Inr (b * p div 100)"
proof -
  define n where "n = b * p"
  define k where "k = n div 100"
  define r where "r = n mod 100"
  have n0: "0 \<le> n" using b p by (simp add: n_def)
  have nk: "n = k * 100 + r" by (simp add: k_def r_def)
  have r: "0 \<le> r" "r < 100" by (simp_all add: r_def)
  have k0: "0 \<le> k" using n0 by (simp add: k_def pos_imp_zdiv_nonneg_iff)
  have nsmall: "n < 2 ^ 53" using small by (simp add: n_def)
  have "\<exists>m e. round_to_double n 100 = Some (m, e) \<and> 0 \<le> m \<and>
      real_of_int k \<le> real_of_int m * 2 powi e \<and> real_of_int m * 2 powi e < real_of_int k + 1"
  proof (cases "r = 0")
    case True
    have "k < 2 ^ 53" using nsmall nk True k0 by simp
    from round_to_double_exact [OF k0 this, of 100]
    show ?thesis using nk True by auto
  next
    case False
    with r have r1: "1 \<le> r" by simp
    have "real_of_int n < real_of_int (2 ^ 53)" using nsmall by (simp only: of_int_less_iff)
    then have "real_of_int n / real_of_int 100 < 2 powi 47" by simp
    from round_to_double_acc [OF n0 _ this]
    obtain m e where me: "round_to_double n 100 = Some (m, e)" "0 \<le> m"
      and err: "\<bar>real_of_int m * 2 powi e - real_of_int n / real_of_int 100\<bar>
          \<le> 2 powi (max (47 - 54) (- 1075))"
      by auto
    have err': "\<bar>real_of_int m * 2 powi e - real_of_int n / 100\<bar> \<le> 1 / 128"
      using err by simp
    have q: "real_of_int n / 100 = real_of_int k + real_of_int r / 100"
      by (simp add: nk)
    have r1': "(1::real) \<le> real_of_int r" using r1 by simp
    have "r \<le> 99" using r(2) by simp
    then have r99: "real_of_int r \<le> (99::real)" by simp
    have up: "real_of_int m * 2 powi e - real_of_int n / 100 \<le> 1 / 128"
      using err' by (rule abs_le_D1)
    have dn: "- (real_of_int m * 2 powi e - real_of_int n / 100) \<le> 1 / 128"
      using err' by (rule abs_le_D2)
    have "real_of_int k \<le> real_of_int m * 2 powi e \<and>
        real_of_int m * 2 powi e < real_of_int k + 1"
      using up dn q r1' r99 by linarith
    with me show ?thesis by blast
  qed
  then obtain m e where me: "round_to_double n 100 = Some (m, e)" "0 \<le> m"
    and lo: "real_of_int k \<le> real_of_int m * 2 powi e"
    and hi: "real_of_int m * 2 powi e < real_of_int k + 1"
    by blast
  from int_of_float_acc [OF me(2), of e]
  obtain n' where n': "int_of_float (Finite False m e) = Inr n'"
      "real_of_int n' \<le> real_of_int m * 2 powi e"
      "real_of_int m * 2 powi e < real_of_int n' + 1"
    by blast
  have "real_of_int n' < real_of_int (k + 1)" using n'(2) hi by simp
  then have "n' < k + 1" by (simp only: of_int_less_iff)
  moreover have "real_of_int k < real_of_int (n' + 1)" using n'(3) lo by simp
  then have "k < n' + 1" by (simp only: of_int_less_iff)
  ultimately have "n' = k" by simp
  then show ?thesis
    using n0 me(1) n'(1)
    by (simp add: sell_amount_def int_truediv_def n_def [symmetric] k_def)
qed

subsection \<open>The printed digits read back\<close>







subsection \<open>The calls of a sell and of a buy\<close>

lemma swap_sell_trace:
  assumes "sell_amount (draw 0 1 (10 ^ 18) w) p = Inr a"
  shows "trace (swap_sell t p) w =
    [Invoke (address (contract t)) ''balanceOf'' [PyStr (ADDRESS w)],
     Call ''balanceOf'' (PyInt (draw 0 1 (10 ^ 18) w)),
     Invoke (address (contract t)) ''decimals'' [],
     Call ''decimals'' (PyInt 18),
     Invoke (address (contract t)) ''approve'' [PyStr ROUTER_ADDRESS, PyInt a],
     GetTransactionCount (ADDRESS w) (draw 1 0 20 w),
     BuildTransaction ''approve''
       [(''from'', PyStr (ADDRESS w)), (''to'', PyStr ''0xDummy''), (''value'', PyInt 0),
        (''gas'', PyInt 80000), (''gasPrice'', PyInt 5000000000),
        (''nonce'', PyInt (draw 1 0 20 w)), (''data'', PyStr ''<dummy_data>''),
        (''approved_to'', PyStr ROUTER_ADDRESS), (''approved_value'', PyInt a)],
     SignTransaction
       [(''from'', PyStr (ADDRESS w)), (''to'', PyStr ''0xDummy''), (''value'', PyInt 0),
        (''gas'', PyInt 80000), (''gasPrice'', PyInt 5000000000),
        (''nonce'', PyInt (draw 1 0 20 w)), (''data'', PyStr ''<dummy_data>''),
        (''approved_to'', PyStr ROUTER_ADDRESS), (''approved_value'', PyInt a)],
     SendRawTransaction ''dummy_tx'' (draw_hash 2 w),
     GetBlock ''latest'' (clock w (ticks w)),
     Invoke ROUTER_ADDRESS ''swapExactTokensForETH''
       [PyInt a, PyInt 0, PyList [t, WETH_ADDRESS], PyStr (ADDRESS w),
        PyInt (clock w (ticks w) + 1200)],
     GetTransactionCount (ADDRESS w) (draw 3 0 20 w),
     BuildTransaction ''swapExactTokensForETH''
       [(''from'', PyStr (ADDRESS w)), (''to'', PyStr ''0xDummy''), (''value'', PyInt 0),
        (''gas'', PyInt 250000), (''gasPrice'', PyInt 5000000000),
        (''nonce'', PyInt (draw 3 0 20 w)), (''data'', PyStr ''<dummy_data>''),
        (''swap'', PyStr ''tokens->eth'')],
     SignTransaction
       [(''from'', PyStr (ADDRESS w)), (''to'', PyStr ''0xDummy''), (''value'', PyInt 0),
        (''gas'', PyInt 250000), (''gasPrice'', PyInt 5000000000),
        (''nonce'', PyInt (draw 3 0 20 w)), (''data'', PyStr ''<dummy_data>''),
        (''swap'', PyStr ''tokens->eth'')],
     SendRawTransaction ''dummy_tx'' (draw_hash 4 w)]"
  using assms by (simp add: run_defs ROUTER_ADDRESS_def)

lemma swap_sell_result:
  assumes "sell_amount (draw 0 1 (10 ^ 18) w) p = Inr a"
  shows "fst (swap_sell t p w) = Inr (''Sell Tx Sent: 0x'' @ draw_hash 4 w)"
  using assms by (simp add: run_defs)

lemma swap_sell_fails:
  assumes "sell_amount (draw 0 1 (10 ^ 18) w) p = Inl err"
  shows "fst (swap_sell t p w) = Inl err \<and>
    trace (swap_sell t p) w =
      [Invoke (address (contract t)) ''balanceOf'' [PyStr (ADDRESS w)],
       Call ''balanceOf'' (PyInt (draw 0 1 (10 ^ 18) w)),
       Invoke (address (contract t)) ''decimals'' [],
       Call ''decimals'' (PyInt 18)]"
  using assms by (simp add: run_defs)

lemma swap_sell_world:
  assumes "sell_amount (draw 0 1 (10 ^ 18) w) p = Inr a"
  shows "ticks (snd (swap_sell t p w)) = Suc (ticks w) \<and> clock (snd (swap_sell t p w)) = clock w
    \<and> draws (snd (swap_sell t p w)) = draws w + 5"
  using assms by (simp add: run_defs)

lemma swap_buy_prefix:
  "\<exists>rest. trace (swap_buy t x) w =
     GetBlock ''latest'' (clock w (ticks w)) #
     Invoke ROUTER_ADDRESS ''swapExactETHForTokens''
       [PyInt 0, PyList [WETH_ADDRESS, t], PyStr (ADDRESS w), PyInt (clock w (ticks w) + 1200)] #
     rest \<and> block_timestamps rest = [] \<and> swap_arg k rest = []"
  by (cases "to_wei x ''ether''") (simp_all add: run_defs ROUTER_ADDRESS_def)

lemma swap_buy_world:
  "ticks (snd (swap_buy t x w)) = Suc (ticks w) \<and> clock (snd (swap_buy t x w)) = clock w"
  by (cases "to_wei x ''ether''") (simp_all add: run_defs)

lemma swap_buy_trace:
  assumes "to_wei x ''ether'' = Inr v"
  shows "trace (swap_buy t x) w =
    [GetBlock ''latest'' (clock w (ticks w)),
     Invoke ROUTER_ADDRESS ''swapExactETHForTokens''
       [PyInt 0, PyList [WETH_ADDRESS, t], PyStr (ADDRESS w), PyInt (clock w (ticks w) + 1200)],
     GetTransactionCount (ADDRESS w) (draw 0 0 20 w),
     BuildTransaction ''swapExactETHForTokens''
       [(''from'', PyStr (ADDRESS w)), (''to'', PyStr ''0xDummy''), (''value'', PyInt v),
        (''gas'', PyInt 250000), (''gasPrice'', PyInt 5000000000),
        (''nonce'', PyInt (draw 0 0 20 w)), (''data'', PyStr ''<dummy_data>''),
        (''swap'', PyStr ''eth->tokens'')],
     SignTransaction
       [(''from'', PyStr (ADDRESS w)), (''to'', PyStr ''0xDummy''), (''value'', PyInt v),
        (''gas'', PyInt 250000), (''gasPrice'', PyInt 5000000000),
        (''nonce'', PyInt (draw 0 0 20 w)), (''data'', PyStr ''<dummy_data>''),
        (''swap'', PyStr ''eth->tokens'')],
     SendRawTransaction ''dummy_tx'' (draw_hash 1 w)]"
  using assms by (simp add: run_defs ROUTER_ADDRESS_def)

lemma swap_buy_result:
  assumes "to_wei x ''ether'' = Inr v"
  shows "fst (swap_buy t x w) = Inr (''Buy Tx Sent: 0x'' @ draw_hash 1 w)"
  using assms by (simp add: run_defs)




lemma to_wei_other_unit:
  "unit \<noteq> ''ether'' \<Longrightarrow> unit \<noteq> ''gwei'' \<Longrightarrow> to_wei val unit = as_int val"
  by (simp add: to_wei_def)

lemma sell_amount_error: "sell_amount b p = Inl err \<Longrightarrow> err = OverflowError"
  by (auto simp: sell_amount_def int_truediv_def Let_def split: option.splits sum.splits)

lemma swap_buy_rng: "rng (snd (swap_buy t x w)) = rng w"
  by (cases "to_wei x ''ether''") (simp_all add: run_defs)

lemma draw_after_buy:
  "draw k a b (snd (swap_buy t x (sample_world r))) = a + r mod (b - a + 1)"
  by (simp add: draw_def swap_buy_rng) (simp add: sample_world_def)

lemma hash_199: "rjust (hex_nat 199) 16 CHR ''0'' = ''00000000000000c7''"
  by code_simp

lemma draw_hash_sample [simp]:
  "draw_hash k (sample_world r) = rjust (hex_nat (r mod 2 ^ 64)) 16 CHR ''0''"
  by (simp add: draw_hash_def sample_world_def)

lemma sample_world_sel [simp]:
  "ADDRESS (sample_world r) = ''0x00000000000000000000000000000000000000aa''"
  "ticks (sample_world r) = 0"
  "clock (sample_world r) k = 1000 + 15 * int k"
  by (simp_all add: sample_world_def)

section \<open>The claims\<close>

text \<open>
  C1 (as amended).  The claim that the swap's nonce is the approve's nonce plus one fails:
  each of the two transactions of a sell takes the value of its own
  \<open>get_transaction_count\<close> read, which DummyEth draws at random from 0..20, and there is
  no local increment.  What holds: the approve transaction uses the count read before it
  is built, the sell-swap transaction uses the count read after the approve transaction
  has been submitted, and both counts lie in 0..20.
\<close>

theorem swap_sell_nonces:
  "case sell_amount (draw 0 1 (10 ^ 18) w) p of
     Inl err \<Rightarrow> tx_nonces (trace (swap_sell t p) w) = []
   | Inr a \<Rightarrow>
       tx_nonces (trace (swap_sell t p) w) =
         [(''approve'', PyInt (draw 1 0 20 w)),
          (''swapExactTokensForETH'', PyInt (draw 3 0 20 w))] \<and>
       filter is_count_or_send (trace (swap_sell t p) w) =
         [GetTransactionCount (ADDRESS w) (draw 1 0 20 w),
          SendRawTransaction ''dummy_tx'' (draw_hash 2 w),
          GetTransactionCount (ADDRESS w) (draw 3 0 20 w),
          SendRawTransaction ''dummy_tx'' (draw_hash 4 w)] \<and>
       0 \<le> draw 1 0 20 w \<and> draw 1 0 20 w \<le> 20 \<and>
       0 \<le> draw 3 0 20 w \<and> draw 3 0 20 w \<le> 20"
proof (cases "sell_amount (draw 0 1 (10 ^ 18) w) p")
  case (Inl err)
  then show ?thesis
    using swap_sell_fails [OF Inl, of t] by simp
next
  case (Inr a)
  have "0 \<le> draw 1 0 20 w \<and> draw 1 0 20 w \<le> 20"
    by (rule draw_range) simp
  moreover have "0 \<le> draw 3 0 20 w \<and> draw 3 0 20 w \<le> 20"
    by (rule draw_range) simp
  ultimately show ?thesis
    using Inr swap_sell_trace [OF Inr, of t] by (simp add: dict_get_def)
qed

theorem swap_sell_nonces_witness:
  "tx_nonces (trace (swap_sell sample_token 50) (sample_world 199)) =
     [(''approve'', PyInt 10), (''swapExactTokensForETH'', PyInt 10)] \<and>
   filter is_count_or_send (trace (swap_sell sample_token 50) (sample_world 199)) =
     [GetTransactionCount ''0x00000000000000000000000000000000000000aa'' 10,
      SendRawTransaction ''dummy_tx'' ''00000000000000c7'',
      GetTransactionCount ''0x00000000000000000000000000000000000000aa'' 10,
      SendRawTransaction ''dummy_tx'' ''00000000000000c7'']"
  using swap_sell_nonces [where w = "sample_world 199" and p = 50 and t = sample_token]
  by (simp add: sell_amount_200_50 hash_199)

text \<open>
  The counterexample to C1 as stated: in a world where every draw has the raw value 199
  the balance read is 200, and both transactions of \<open>swap_sell(token, 50)\<close> carry the
  nonce 10: the two nonces are equal, not one apart.
\<close>

theorem swap_sell_nonces_equal:
  "tx_nonces (trace (swap_sell sample_token 50) (sample_world 199)) =
     [(''approve'', PyInt 10), (''swapExactTokensForETH'', PyInt 10)]"
proof -
  have "sell_amount (draw 0 1 (10 ^ 18) (sample_world 199)) 50 = Inr 100"
    by (simp add: sell_amount_200_50)
  from swap_sell_trace [OF this, of sample_token] show ?thesis
    by (simp add: dict_get_def)
qed

text \<open>
  C2.  In every call of \<open>swap_sell\<close> the sell-swap call on the router is created, and its
  transaction built, signed and submitted, only after the approve transaction has been
  built, signed and submitted and the submission has returned its hash.  When the sell
  amount cannot be computed no transaction step happens at all.
\<close>

theorem swap_sell_order:
  "case sell_amount (draw 0 1 (10 ^ 18) w) p of
     Inl err \<Rightarrow> filter is_tx_step (trace (swap_sell t p) w) = []
   | Inr a \<Rightarrow>
       (\<exists>approve_tx h1 args sell_tx h2.
          filter is_tx_step (trace (swap_sell t p) w) =
            [BuildTransaction ''approve'' approve_tx,
             SignTransaction approve_tx,
             SendRawTransaction ''dummy_tx'' h1,
             Invoke ROUTER_ADDRESS ''swapExactTokensForETH'' args,
             BuildTransaction ''swapExactTokensForETH'' sell_tx,
             SignTransaction sell_tx,
             SendRawTransaction ''dummy_tx'' h2] \<and>
          map_of approve_tx ''approved_to'' = Some (PyStr ROUTER_ADDRESS) \<and>
          map_of approve_tx ''approved_value'' = Some (PyInt a) \<and>
          map_of sell_tx ''swap'' = Some (PyStr ''tokens->eth''))"
proof (cases "sell_amount (draw 0 1 (10 ^ 18) w) p")
  case (Inl err)
  then show ?thesis
    using swap_sell_fails [OF Inl, of t] by (simp add: UNISWAP_ROUTER_ABI_def)
next
  case (Inr a)
  then show ?thesis
    using swap_sell_trace [OF Inr, of t] by (simp add: UNISWAP_ROUTER_ABI_def)
qed

theorem swap_sell_order_witness:
  "\<exists>approve_tx h1 args sell_tx h2.
     filter is_tx_step (trace (swap_sell sample_token 50) (sample_world 199)) =
       [BuildTransaction ''approve'' approve_tx,
        SignTransaction approve_tx,
        SendRawTransaction ''dummy_tx'' h1,
        Invoke ROUTER_ADDRESS ''swapExactTokensForETH'' args,
        BuildTransaction ''swapExactTokensForETH'' sell_tx,
        SignTransaction sell_tx,
        SendRawTransaction ''dummy_tx'' h2] \<and>
     map_of approve_tx ''approved_to'' = Some (PyStr ROUTER_ADDRESS) \<and>
     map_of approve_tx ''approved_value'' = Some (PyInt 100) \<and>
     map_of sell_tx ''swap'' = Some (PyStr ''tokens->eth'')"
  using swap_sell_order [where w = "sample_world 199" and p = 50 and t = sample_token]
  by (simp add: sell_amount_200_50)



text \<open>
  C3 (as amended).  The claim that a percentage outside [0, 100] makes \<open>swap_sell\<close> fail
  with InvalidPercentage before any chain read is false: the function never inspects the
  range of its percentage.  What holds: for every percentage the balance and the decimals
  are read first, and the only exception that can follow is OverflowError; for a
  percentage outside [0, 100] of magnitude at most \<open>2^900\<close> the sell completes, after five
  chain reads, and returns the hash of the swap.
\<close>

theorem swap_sell_unchecked_percentage:
  "take 2 (filter is_chain_read (trace (swap_sell t p) w)) =
     [Call ''balanceOf'' (PyInt (draw 0 1 (10 ^ 18) w)), Call ''decimals'' (PyInt 18)] \<and>
   (fst (swap_sell t p w) = Inl OverflowError \<or>
    fst (swap_sell t p w) = Inr (''Sell Tx Sent: 0x'' @ draw_hash 4 w)) \<and>
   ((p < 0 \<or> 100 < p) \<and> \<bar>p\<bar> \<le> 2 ^ 900 \<longrightarrow>
      fst (swap_sell t p w) = Inr (''Sell Tx Sent: 0x'' @ draw_hash 4 w) \<and>
      filter is_chain_read (trace (swap_sell t p) w) =
        [Call ''balanceOf'' (PyInt (draw 0 1 (10 ^ 18) w)),
         Call ''decimals'' (PyInt 18),
         GetTransactionCount (ADDRESS w) (draw 1 0 20 w),
         GetBlock ''latest'' (clock w (ticks w)),
         GetTransactionCount (ADDRESS w) (draw 3 0 20 w)])"
proof (cases "sell_amount (draw 0 1 (10 ^ 18) w) p")
  case (Inl err)
  then have err: "err = OverflowError" by (rule sell_amount_error)
  have "\<not> \<bar>p\<bar> \<le> 2 ^ 900"
    using sell_amount_drawn [of p w] Inl by auto
  then show ?thesis
    using swap_sell_fails [OF Inl, of t] err by simp
next
  case (Inr a)
  show ?thesis
    using swap_sell_trace [OF Inr, of t] swap_sell_result [OF Inr, of t] by simp
qed

theorem swap_sell_unchecked_percentage_witness:
  "(150 < (0::int) \<or> (100::int) < 150) \<and> \<bar>150::int\<bar> \<le> 2 ^ 900 \<and>
   fst (swap_sell sample_token 150 (sample_world 199)) =
     Inr ''Sell Tx Sent: 0x00000000000000c7'' \<and>
   filter is_chain_read (trace (swap_sell sample_token 150) (sample_world 199)) =
     [Call ''balanceOf'' (PyInt 200),
      Call ''decimals'' (PyInt 18),
      GetTransactionCount ''0x00000000000000000000000000000000000000aa'' 10,
      GetBlock ''latest'' 1000,
      GetTransactionCount ''0x00000000000000000000000000000000000000aa'' 10]"
  using swap_sell_unchecked_percentage [where w = "sample_world 199" and p = 150 and t = sample_token]
  by (simp add: hash_199)

text \<open>
  The counterexample to C3 as stated: \<open>swap_sell(token, 150)\<close> on a balance of 200 does
  not fail.  It reads the chain five times, approves and swaps 300 base units, and
  returns the hash of the swap.
\<close>

theorem swap_sell_150_succeeds:
  "fst (swap_sell sample_token 150 (sample_world 199)) =
     Inr ''Sell Tx Sent: 0x00000000000000c7'' \<and>
   length (filter is_chain_read (trace (swap_sell sample_token 150) (sample_world 199))) = 5 \<and>
   swap_arg ''amountIn'' (trace (swap_sell sample_token 150) (sample_world 199)) =
     [(''swapExactTokensForETH'', Some (PyInt 300))]"
proof -
  have ok: "sell_amount (draw 0 1 (10 ^ 18) (sample_world 199)) 150 = Inr 300"
    by (simp add: sell_amount_200_150)
  show ?thesis
    using swap_sell_trace [OF ok, of sample_token] swap_sell_result [OF ok, of sample_token]
    by (simp add: hash_199 UNISWAP_ROUTER_ABI_def)
qed

text \<open>
  C4 (a defect of the code).  The claim asks for \<open>floor(balance * percentage / 100)\<close>.
  The code computes \<open>int(balance * percentage / 100)\<close> with a float division, which
  keeps 53 bits: for the balance \<open>2^53 + 1\<close> and the percentage 100 the sell amount is
  \<open>2^53\<close>, one base unit less than the balance.  The balance is one that
  \<open>random.randint(1, 10**18)\<close> can return.  Where \<open>balance * percentage\<close> is below
  \<open>2^53\<close> the code does compute the floor (\<open>sell_amount_exact\<close>).
\<close>

theorem sell_amount_loses_precision:
  "sell_amount 9007199254740993 100 = Inr 9007199254740992 \<and>
   (9007199254740993 * 100) div 100 = (9007199254740993::int) \<and>
   filter is_chain_read (take 2 (trace (swap_sell sample_token 100) (sample_world 9007199254740992))) =
     [Call ''balanceOf'' (PyInt 9007199254740993)] \<and>
   swap_arg ''amountIn'' (trace (swap_sell sample_token 100) (sample_world 9007199254740992)) =
     [(''swapExactTokensForETH'', Some (PyInt 9007199254740992))]"
proof -
  have ok: "sell_amount (draw 0 1 (10 ^ 18) (sample_world 9007199254740992)) 100 =
      Inr 9007199254740992"
    by (simp add: sell_amount_2_53)
  show ?thesis
    using swap_sell_trace [OF ok, of sample_token]
    by (simp add: sell_amount_2_53 UNISWAP_ROUTER_ABI_def)
qed

text \<open>
  C5.  The deadline passed to the router by a buy and by a sell is the timestamp of the
  block read in that same operation plus 1200.  Every operation takes a new reading of
  the clock (the tick counter advances), so a sell that follows a buy uses the next
  reading, and two operations use the same deadline exactly when they read the same
  timestamp.
\<close>

theorem swap_deadlines:
  "map snd (swap_arg ''deadline'' (trace (swap_buy t x) w)) =
     [Some (PyInt (clock w (ticks w) + 1200))] \<and>
   block_timestamps (trace (swap_buy t x) w) = [clock w (ticks w)] \<and>
   ticks (snd (swap_buy t x w)) = Suc (ticks w) \<and>
   clock (snd (swap_buy t x w)) = clock w \<and>
   (case sell_amount (draw 0 1 (10 ^ 18) w') p of
      Inl err \<Rightarrow>
        swap_arg ''deadline'' (trace (swap_sell t' p) w') = [] \<and>
        block_timestamps (trace (swap_sell t' p) w') = []
    | Inr a \<Rightarrow>
        map snd (swap_arg ''deadline'' (trace (swap_sell t' p) w')) =
          [Some (PyInt (clock w' (ticks w') + 1200))] \<and>
        block_timestamps (trace (swap_sell t' p) w') = [clock w' (ticks w')] \<and>
        ticks (snd (swap_sell t' p w')) = Suc (ticks w') \<and>
        clock (snd (swap_sell t' p w')) = clock w' \<and>
        (map snd (swap_arg ''deadline'' (trace (swap_buy t x) w)) =
         map snd (swap_arg ''deadline'' (trace (swap_sell t' p) w'))) =
        (clock w (ticks w) = clock w' (ticks w')))"
proof -
  obtain rest where buy: "trace (swap_buy t x) w =
      GetBlock ''latest'' (clock w (ticks w)) #
      Invoke ROUTER_ADDRESS ''swapExactETHForTokens''
        [PyInt 0, PyList [WETH_ADDRESS, t], PyStr (ADDRESS w), PyInt (clock w (ticks w) + 1200)] #
      rest"
    and rest: "block_timestamps rest = []" "swap_arg ''deadline'' rest = []"
    using swap_buy_prefix [of t x w "''deadline''"] by auto
  have b1: "map snd (swap_arg ''deadline'' (trace (swap_buy t x) w)) =
      [Some (PyInt (clock w (ticks w) + 1200))]"
    by (simp add: buy rest UNISWAP_ROUTER_ABI_def)
  have b2: "block_timestamps (trace (swap_buy t x) w) = [clock w (ticks w)]"
    by (simp add: buy rest)
  show ?thesis
  proof (cases "sell_amount (draw 0 1 (10 ^ 18) w') p")
    case (Inl err)
    then show ?thesis
      using swap_sell_fails [OF Inl, of t'] b1 b2 swap_buy_world [of t x w]
      by (simp add: UNISWAP_ROUTER_ABI_def)
  next
    case (Inr a)
    then show ?thesis
      using swap_sell_trace [OF Inr, of t'] swap_sell_world [OF Inr, of t'] b1 b2
        swap_buy_world [of t x w]
      by (simp add: UNISWAP_ROUTER_ABI_def)
  qed
qed

theorem swap_deadlines_witness:
  "map snd (swap_arg ''deadline'' (trace (swap_buy sample_token (py_float one_hundredth)) (sample_world 199))) =
     [Some (PyInt 2200)] \<and>
   map snd (swap_arg ''deadline''
     (trace (swap_sell sample_token 50) (snd (swap_buy sample_token (py_float one_hundredth) (sample_world 199))))) =
     [Some (PyInt 2215)]"
  using swap_deadlines [where w = "sample_world 199" and t = sample_token and x = "py_float one_hundredth"
      and w' = "snd (swap_buy sample_token (py_float one_hundredth) (sample_world 199))" and p = 50
      and t' = sample_token]
    swap_buy_world [of sample_token "py_float one_hundredth" "sample_world 199"]
  by (simp add: draw_after_buy sell_amount_200_50)



text \<open>
  C6.  Every buy passes the path [wrapped native token, output token] to
  \<open>swapExactETHForTokens\<close>, and every sell that reaches its swap passes the path
  [input token, wrapped native token] to \<open>swapExactTokensForETH\<close>.  The dummy contract
  drops the arguments of the call, so the path is read from the call, not from the
  transaction dictionary.
\<close>

theorem swap_paths:
  "swap_arg ''path'' (trace (swap_buy t x) w) =
     [(''swapExactETHForTokens'', Some (PyList [WETH_ADDRESS, t]))] \<and>
   (case sell_amount (draw 0 1 (10 ^ 18) w) p of
      Inl err \<Rightarrow> swap_arg ''path'' (trace (swap_sell t p) w) = []
    | Inr a \<Rightarrow>
        swap_arg ''path'' (trace (swap_sell t p) w) =
          [(''swapExactTokensForETH'', Some (PyList [t, WETH_ADDRESS]))])"
proof -
  obtain rest where buy: "trace (swap_buy t x) w =
      GetBlock ''latest'' (clock w (ticks w)) #
      Invoke ROUTER_ADDRESS ''swapExactETHForTokens''
        [PyInt 0, PyList [WETH_ADDRESS, t], PyStr (ADDRESS w), PyInt (clock w (ticks w) + 1200)] #
      rest"
    and rest: "swap_arg ''path'' rest = []"
    using swap_buy_prefix [of t x w "''path''"] by auto
  have b: "swap_arg ''path'' (trace (swap_buy t x) w) =
      [(''swapExactETHForTokens'', Some (PyList [WETH_ADDRESS, t]))]"
    by (simp add: buy rest UNISWAP_ROUTER_ABI_def)
  show ?thesis
  proof (cases "sell_amount (draw 0 1 (10 ^ 18) w) p")
    case (Inl err)
    then show ?thesis
      using swap_sell_fails [OF Inl, of t] b by (simp add: UNISWAP_ROUTER_ABI_def)
  next
    case (Inr a)
    then show ?thesis
      using swap_sell_trace [OF Inr, of t] b by (simp add: UNISWAP_ROUTER_ABI_def)
  qed
qed

theorem swap_paths_witness:
  "swap_arg ''path'' (trace (swap_buy sample_token (py_float one_hundredth)) (sample_world 199)) =
     [(''swapExactETHForTokens'', Some (PyList [WETH_ADDRESS, sample_token]))] \<and>
   swap_arg ''path'' (trace (swap_sell sample_token 50) (sample_world 199)) =
     [(''swapExactTokensForETH'', Some (PyList [sample_token, WETH_ADDRESS]))]"
  using swap_paths [where w = "sample_world 199" and p = 50 and t = sample_token
      and x = "py_float one_hundredth"]
  by (simp add: sell_amount_200_50)

text \<open>
  C7.  The minimum-out argument of every swap call, of a buy and of a sell, is the
  constant 0, whatever the token, the amount, the percentage and the state of the chain
  client.  The engine computes no bound of its own and nothing rejects the zero: a buy
  fails only when the conversion of its amount to wei raises, a sell only when the sell
  amount cannot be computed, and otherwise each returns the hash of its swap.
\<close>

theorem swap_min_out_zero:
  "swap_arg ''amountOutMin'' (trace (swap_buy t x) w) =
     [(''swapExactETHForTokens'', Some (PyInt 0))] \<and>
   fst (swap_buy t x w) =
     (case to_wei x ''ether'' of
        Inl err \<Rightarrow> Inl err
      | Inr v \<Rightarrow> Inr (''Buy Tx Sent: 0x'' @ draw_hash 1 w)) \<and>
   (case sell_amount (draw 0 1 (10 ^ 18) w) p of
      Inl err \<Rightarrow>
        swap_arg ''amountOutMin'' (trace (swap_sell t p) w) = [] \<and>
        fst (swap_sell t p w) = Inl err
    | Inr a \<Rightarrow>
        swap_arg ''amountOutMin'' (trace (swap_sell t p) w) =
          [(''swapExactTokensForETH'', Some (PyInt 0))] \<and>
        fst (swap_sell t p w) = Inr (''Sell Tx Sent: 0x'' @ draw_hash 4 w))"
proof -
  obtain rest where buy: "trace (swap_buy t x) w =
      GetBlock ''latest'' (clock w (ticks w)) #
      Invoke ROUTER_ADDRESS ''swapExactETHForTokens''
        [PyInt 0, PyList [WETH_ADDRESS, t], PyStr (ADDRESS w), PyInt (clock w (ticks w) + 1200)] #
      rest"
    and rest: "swap_arg ''amountOutMin'' rest = []"
    using swap_buy_prefix [of t x w "''amountOutMin''"] by auto
  have b1: "swap_arg ''amountOutMin'' (trace (swap_buy t x) w) =
      [(''swapExactETHForTokens'', Some (PyInt 0))]"
    by (simp add: buy rest UNISWAP_ROUTER_ABI_def)
  have b2: "fst (swap_buy t x w) =
     (case to_wei x ''ether'' of
        Inl err \<Rightarrow> Inl err
      | Inr v \<Rightarrow> Inr (''Buy Tx Sent: 0x'' @ draw_hash 1 w))"
    by (cases "to_wei x ''ether''") (simp_all add: run_defs)
  show ?thesis
  proof (cases "sell_amount (draw 0 1 (10 ^ 18) w) p")
    case (Inl err)
    then show ?thesis
      using swap_sell_fails [OF Inl, of t] b1 b2 by (simp add: UNISWAP_ROUTER_ABI_def)
  next
    case (Inr a)
    then show ?thesis
      using swap_sell_trace [OF Inr, of t] swap_sell_result [OF Inr, of t] b1 b2
      by (simp add: UNISWAP_ROUTER_ABI_def)
  qed
qed

theorem swap_min_out_zero_witness:
  "swap_arg ''amountOutMin'' (trace (swap_buy sample_token (py_float one_hundredth)) (sample_world 199)) =
     [(''swapExactETHForTokens'', Some (PyInt 0))] \<and>
   fst (swap_buy sample_token (py_float one_hundredth) (sample_world 199)) =
     Inr ''Buy Tx Sent: 0x00000000000000c7'' \<and>
   swap_arg ''amountOutMin'' (trace (swap_sell sample_token 50) (sample_world 199)) =
     [(''swapExactTokensForETH'', Some (PyInt 0))] \<and>
   fst (swap_sell sample_token 50 (sample_world 199)) =
     Inr ''Sell Tx Sent: 0x00000000000000c7''"
  using swap_min_out_zero [where w = "sample_world 199" and p = 50 and t = sample_token
      and x = "py_float one_hundredth"]
  by (simp add: sell_amount_200_50 to_wei_one_hundredth hash_199)

text \<open>
  C8 (as amended).  The round trip is not within \<open>10^-4\<close> for every non-negative finite
  amount: a float carries 53 bits, so a large amount comes back changed by more.  What
  holds: for every non-negative float below \<open>2^38\<close> (about \<open>2.7 * 10^11\<close>), converting
  to base units with exponent 18 or 9 (\<open>_to_wei\<close> with "ether" or "gwei") and dividing
  by \<open>10^18\<close> or \<open>10^9\<close> again gives a float within \<open>10^-4\<close> of the amount, and the
  four-digit rendering of that float is within \<open>10^-4\<close> of the amount too.
\<close>

theorem round_trip_bounded:
  assumes "0 \<le> m" and "float_val (Finite False m e) < 2 ^ 38"
  shows
    "(\<exists>n m2 e2.
        to_wei (py_float (Finite False m e)) ''ether'' = Inr n \<and>
        int_truediv n (10 ^ 18) = Inr (Finite False m2 e2) \<and>
        \<bar>float_val (Finite False m2 e2) - float_val (Finite False m e)\<bar> \<le> 1 / 10 ^ 4 \<and>
        \<bar>real_of_int (ten_thousandths m2 e2) / 10 ^ 4 - float_val (Finite False m e)\<bar>
          \<le> 1 / 10 ^ 4) \<and>
     (\<exists>n m2 e2.
        to_wei (py_float (Finite False m e)) ''gwei'' = Inr n \<and>
        int_truediv n (10 ^ 9) = Inr (Finite False m2 e2) \<and>
        \<bar>float_val (Finite False m2 e2) - float_val (Finite False m e)\<bar> \<le> 1 / 10 ^ 4 \<and>
        \<bar>real_of_int (ten_thousandths m2 e2) / 10 ^ 4 - float_val (Finite False m e)\<bar>
          \<le> 1 / 10 ^ 4)"
proof -
  define X where "X = real_of_int m * 2 powi e"
  have X: "X = real_of_int m * 2 powi e" by (simp add: X_def)
  have small: "X < 2 ^ 38" using assms(2) by (simp add: float_val_def X_def)
  have half: "(1::real) / (2 * 10 ^ 4) \<le> 1 / 10 ^ 4" by simp
  have ether: "\<exists>n m2 e2.
     int_of_float (float_mul (Finite False m e) (Finite False 7812500000000000 7)) = Inr n \<and>
     int_truediv n 1000000000000000000 = Inr (Finite False m2 e2) \<and> 0 \<le> m2 \<and>
     \<bar>real_of_int m2 * 2 powi e2 - X\<bar> \<le> 1 / (2 * 10 ^ 4) \<and>
     \<bar>real_of_int (ten_thousandths m2 e2) / 10 ^ 4 - X\<bar> \<le> 1 / 10 ^ 4"
    by (rule round_trip_generic [OF assms(1) X small, where K = 60]) simp_all
  have gwei: "\<exists>n m2 e2.
     int_of_float (float_mul (Finite False m e) (Finite False 8388608000000000 (- 23))) = Inr n \<and>
     int_truediv n 1000000000 = Inr (Finite False m2 e2) \<and> 0 \<le> m2 \<and>
     \<bar>real_of_int m2 * 2 powi e2 - X\<bar> \<le> 1 / (2 * 10 ^ 4) \<and>
     \<bar>real_of_int (ten_thousandths m2 e2) / 10 ^ 4 - X\<bar> \<le> 1 / 10 ^ 4"
    by (rule round_trip_generic [OF assms(1) X small, where K = 30]) simp_all
  from ether obtain n m2 e2 where
    "int_of_float (float_mul (Finite False m e) (Finite False 7812500000000000 7)) = Inr n"
    "int_truediv n 1000000000000000000 = Inr (Finite False m2 e2)"
    "\<bar>real_of_int m2 * 2 powi e2 - X\<bar> \<le> 1 / (2 * 10 ^ 4)"
    "\<bar>real_of_int (ten_thousandths m2 e2) / 10 ^ 4 - X\<bar> \<le> 1 / 10 ^ 4"
    by blast
  then have A: "\<exists>n m2 e2.
        to_wei (py_float (Finite False m e)) ''ether'' = Inr n \<and>
        int_truediv n (10 ^ 18) = Inr (Finite False m2 e2) \<and>
        \<bar>float_val (Finite False m2 e2) - float_val (Finite False m e)\<bar> \<le> 1 / 10 ^ 4 \<and>
        \<bar>real_of_int (ten_thousandths m2 e2) / 10 ^ 4 - float_val (Finite False m e)\<bar>
          \<le> 1 / 10 ^ 4"
    using half by (auto simp: to_wei_def py_float_def float_of_int_e18 float_val_def X_def)
  from gwei obtain n m2 e2 where
    "int_of_float (float_mul (Finite False m e) (Finite False 8388608000000000 (- 23))) = Inr n"
    "int_truediv n 1000000000 = Inr (Finite False m2 e2)"
    "\<bar>real_of_int m2 * 2 powi e2 - X\<bar> \<le> 1 / (2 * 10 ^ 4)"
    "\<bar>real_of_int (ten_thousandths m2 e2) / 10 ^ 4 - X\<bar> \<le> 1 / 10 ^ 4"
    by blast
  then have B: "\<exists>n m2 e2.
        to_wei (py_float (Finite False m e)) ''gwei'' = Inr n \<and>
        int_truediv n (10 ^ 9) = Inr (Finite False m2 e2) \<and>
        \<bar>float_val (Finite False m2 e2) - float_val (Finite False m e)\<bar> \<le> 1 / 10 ^ 4 \<and>
        \<bar>real_of_int (ten_thousandths m2 e2) / 10 ^ 4 - float_val (Finite False m e)\<bar>
          \<le> 1 / 10 ^ 4"
    using half by (auto simp: to_wei_def py_float_def float_of_int_e9 float_val_def X_def)
  from A B show ?thesis by blast
qed

theorem round_trip_bounded_witness:
  "(0::int) \<le> 5764607523034235 \<and> float_val one_hundredth < 2 ^ 38 \<and>
   (\<exists>n m2 e2.
      to_wei (py_float one_hundredth) ''ether'' = Inr n \<and>
      int_truediv n (10 ^ 18) = Inr (Finite False m2 e2) \<and>
      \<bar>float_val (Finite False m2 e2) - float_val one_hundredth\<bar> \<le> 1 / 10 ^ 4 \<and>
      \<bar>real_of_int (ten_thousandths m2 e2) / 10 ^ 4 - float_val one_hundredth\<bar>
        \<le> 1 / 10 ^ 4)"
proof -
  have h1: "(0::int) \<le> 5764607523034235" by simp
  have h2: "float_val (Finite False 5764607523034235 (- 59)) < 2 ^ 38"
    by (simp add: float_val_def)
  from round_trip_bounded [OF h1 h2] h1 h2 show ?thesis
    unfolding one_hundredth_def by blast
qed

text \<open>
  The counterexample to C8 as stated: the amount 3000000000003.0 is finite and not
  negative; its base units, divided by \<open>10^18\<close> again, are the float
  3000000000002.99951171875, printed as 3000000000002.9995.  Both differ from the amount
  by more than \<open>10^-4\<close>.
\<close>

theorem round_trip_drifts:
  "0 \<le> float_val three_trillion_three \<and>
   to_wei (py_float three_trillion_three) ''ether'' = Inr 3000000000002999738480679976960 \<and>
   int_truediv 3000000000002999738480679976960 (10 ^ 18) =
     Inr (Finite False 6144000000006143 (- 11)) \<and>
   \<not> \<bar>float_val (Finite False 6144000000006143 (- 11)) - float_val three_trillion_three\<bar>
       \<le> 1 / 10 ^ 4 \<and>
   \<not> \<bar>real_of_int (ten_thousandths 6144000000006143 (- 11)) / 10 ^ 4 -
        float_val three_trillion_three\<bar> \<le> 1 / 10 ^ 4"
proof -
  have v: "float_val three_trillion_three = 3000000000003"
    by (simp add: float_val_def three_trillion_three_def)
  have v': "float_val (Finite False 6144000000006143 (- 11)) = 6144000000006143 / 2048"
    by (simp add: float_val_def)
  show ?thesis
    by (simp add: to_wei_three_trillion_three truediv_three_trillion_three
        ten_thousandths_three_trillion_three v v')
qed

text \<open>
  C9 (as amended).  The claim that addresses differing only in letter case are mapped to
  the same canonical address is false: \<open>to_checksum_address\<close> of the dummy client returns
  its argument unchanged.  What holds: the function is the identity, so two addresses
  have the same image exactly when they are the same string.
\<close>

theorem to_checksum_address_identity:
  "to_checksum_address a = a \<and>
   (to_checksum_address a = to_checksum_address b) = (a = b)"
  by (simp add: to_checksum_address_def)

theorem to_checksum_address_identity_witness:
  "to_checksum_address WETH_ADDRESS = WETH_ADDRESS \<and>
   (to_checksum_address WETH_ADDRESS = to_checksum_address ROUTER_ADDRESS) =
   (WETH_ADDRESS = ROUTER_ADDRESS)"
  by (rule to_checksum_address_identity)

text \<open>
  The counterexample to C9 as stated: the wrapped-native address of the script and its
  lower-case spelling differ only in letter case, and their images differ.
\<close>

theorem to_checksum_address_keeps_case:
  "same_up_to_case WETH_ADDRESS ''0xc02aaa39b223fe8d0a0e5c4f27ead9083c756cc2'' \<and>
   to_checksum_address WETH_ADDRESS \<noteq>
   to_checksum_address ''0xc02aaa39b223fe8d0a0e5c4f27ead9083c756cc2''"
proof -
  have "same_up_to_case WETH_ADDRESS ''0xc02aaa39b223fe8d0a0e5c4f27ead9083c756cc2''"
    by code_simp
  then show ?thesis
    by (simp add: to_checksum_address_def WETH_ADDRESS_def)
qed







end
